theory Spec2Isabelle
  imports Main "HOL-Library.AList" "HOL-Library.Multiset"
begin

text \<open>
  A model of \<^verbatim>\<open>debrebuild.py\<close>, the rebuilder of Debian packages from their
  \<^verbatim>\<open>.buildinfo\<close> files: the parser of the build record, the snapshot client that
  dates a binary package, the resolver that chooses the snapshot sources, and the
  verifier of the checksums. Every function is translated from the source; what
  lies outside the program (the \<^verbatim>\<open>Deb822\<close> reader, \<^verbatim>\<open>dateutil\<close>, the HTTP session, the
  apt cache) is a parameter. Exceptions are values, and where the source changes an
  object before it raises, the object is returned beside the exception.
\<close>

section \<open>Python values: exceptions, strings, dictionaries\<close>

text \<open>
  The exceptions of \<^verbatim>\<open>debrebuild.py\<close>. The program declares three classes
  (\<^verbatim>\<open>PackageException\<close>, \<^verbatim>\<open>BuildInfoException\<close>, \<^verbatim>\<open>RebuilderException\<close>) and
  tells its failures apart only by the message; the interpreter's own exceptions
  (\<^verbatim>\<open>KeyError\<close>, \<^verbatim>\<open>IndexError\<close>, \<^verbatim>\<open>TypeError\<close>, \<^verbatim>\<open>ValueError\<close>) escape where
  the source does not catch them. A raise is the left injection of a sum.
\<close>

datatype exn =
    BuildInfoException string
  | RebuilderException string
  | KeyError string
  | IndexError
  | TypeError
  | ValueError string

text \<open>Sequencing of a computation that may raise: the first exception ends it.\<close>

definition seq :: "exn + 'a \<Rightarrow> ('a \<Rightarrow> exn + 'b) \<Rightarrow> exn + 'b" where
  "seq m f = (case m of Inl e \<Rightarrow> Inl e | Inr v \<Rightarrow> f v)"

text \<open>
  A Python \<^verbatim>\<open>dict\<close> keeps its keys in insertion order and a key occurs once: an
  association list, written with \<^const>\<open>AList.update\<close> (in place for a key that is
  present, at the end for a new one). \<^verbatim>\<open>d[k]\<close> raises \<^verbatim>\<open>KeyError(k)\<close> for a missing key.
\<close>

type_synonym ('k, 'v) dict = "('k \<times> 'v) list"

definition keys :: "('k, 'v) dict \<Rightarrow> 'k list" where
  "keys d = map fst d"

definition getitem :: "(string, 'v) dict \<Rightarrow> string \<Rightarrow> exn + 'v" where
  "getitem d k = (case map_of d k of None \<Rightarrow> Inl (KeyError k) | Some v \<Rightarrow> Inr v)"

text \<open>\<^verbatim>\<open>s.endswith(suf)\<close> and \<^verbatim>\<open>s.startswith(pre)\<close>.\<close>

definition endswith :: "string \<Rightarrow> string \<Rightarrow> bool" where
  "endswith s suf = (length suf \<le> length s \<and> drop (length s - length suf) s = suf)"

definition startswith :: "string \<Rightarrow> string \<Rightarrow> bool" where
  "startswith s pre = (take (length pre) s = pre)"

section \<open>The checksum verifier (\<^verbatim>\<open>Rebuilder.verify_checksums\<close>)\<close>

text \<open>
  \<^verbatim>\<open>BuildInfo.checksums\<close> maps a file name to a dictionary of properties (\<^verbatim>\<open>"size"\<close>
  and one entry per checksum algorithm), all strings.
\<close>

type_synonym props = "(string, string) dict"
type_synonym checksums_t = "(string, props) dict"

text \<open>
  The body of the inner loop, lines 678 to 690, for the file \<open>f\<close> and the property
  \<open>prop\<close>. Every subscript of the source is a \<^const>\<open>getitem\<close>, in the order in which
  Python evaluates them.
\<close>

definition check_prop :: "checksums_t \<Rightarrow> checksums_t \<Rightarrow> string \<Rightarrow> string \<Rightarrow> exn + unit" where
  "check_prop old new f prop =
     seq (if prop = ''size''
          then seq (getitem old f) (\<lambda>old_f.
               seq (getitem old_f ''size'') (\<lambda>f_size.
               seq (getitem new f) (\<lambda>new_f.
               seq (getitem new_f ''size'') (\<lambda>new_size.
               if f_size \<noteq> new_size
               then Inl (RebuilderException (''Size differs for '' @ f))
               else Inr ()))))
          else Inr ()) (\<lambda>_.
     seq (getitem new f) (\<lambda>new_f.
     seq (if prop \<notin> set (keys new_f)
          then Inl (RebuilderException (prop @ '' is not used in both buildinfo files''))
          else Inr ()) (\<lambda>_.
     seq (getitem old f) (\<lambda>old_f.
     seq (getitem old_f prop) (\<lambda>old_v.
     seq (getitem new f) (\<lambda>new_f'.
     seq (getitem new_f' prop) (\<lambda>new_v.
     if old_v \<noteq> new_v
     then Inl (RebuilderException (''Value of '' @ prop @ '' differs for '' @ f))
     else Inr ())))))))"

text \<open>\<^verbatim>\<open>for prop in self.buildinfo.checksums[f].keys()\<close>.\<close>

fun check_props :: "checksums_t \<Rightarrow> checksums_t \<Rightarrow> string \<Rightarrow> string list \<Rightarrow> exn + unit" where
  "check_props old new f [] = Inr ()"
| "check_props old new f (prop # ps) =
     seq (check_prop old new f prop) (\<lambda>_. check_props old new f ps)"

text \<open>One round of \<^verbatim>\<open>for f in files\<close>: the subscript, then the loop over its keys.\<close>

definition check_file :: "checksums_t \<Rightarrow> checksums_t \<Rightarrow> string \<Rightarrow> exn + unit" where
  "check_file old new f =
     seq (getitem old f) (\<lambda>old_f. check_props old new f (keys old_f))"

fun check_files :: "checksums_t \<Rightarrow> checksums_t \<Rightarrow> string list \<Rightarrow> exn + unit" where
  "check_files old new [] = Inr ()"
| "check_files old new (f # fs) =
     seq (check_file old new f) (\<lambda>_. check_files old new fs)"

text \<open>
  \<^verbatim>\<open>verify_checksums\<close> reads only the \<^verbatim>\<open>checksums\<close> of the two build records; the
  logging calls have no effect on the result. \<open>Inr ()\<close> is the normal return.
\<close>

definition verify_checksums :: "checksums_t \<Rightarrow> checksums_t \<Rightarrow> exn + unit" where
  "verify_checksums old new =
     (let files = filter (\<lambda>f. \<not> endswith f ''.dsc'') (keys old);
          new_files = keys new
      in if length files \<noteq> length new_files
         then Inl (RebuilderException ''New buildinfo contains a different number of files.'')
         else check_files old new files)"

section \<open>Packages and the snapshot client (\<^verbatim>\<open>Rebuilder.get_bin_date\<close>)\<close>

text \<open>
  The class \<^verbatim>\<open>Package\<close>. \<^verbatim>\<open>None\<close> is \<^const>\<open>None\<close>; the constructor leaves
  \<^verbatim>\<open>first_seen\<close> and \<^verbatim>\<open>hash\<close> at \<^verbatim>\<open>None\<close>.
\<close>

record package =
  name :: string
  version :: string
  architecture :: "string option"
  first_seen :: "string option"
  hash :: "string option"

definition Package :: "string \<Rightarrow> string \<Rightarrow> string option \<Rightarrow> package" where
  "Package n v a =
     \<lparr>name = n, version = v, architecture = a, first_seen = None, hash = None\<rparr>"

text \<open>Python's truth value of a string or \<^verbatim>\<open>None\<close>: false for \<^verbatim>\<open>None\<close> and for \<^verbatim>\<open>""\<close>.\<close>

definition truthy :: "string option \<Rightarrow> bool" where
  "truthy x = (case x of None \<Rightarrow> False | Some s \<Rightarrow> s \<noteq> [])"

text \<open>
  The decoded answer of \<^verbatim>\<open>/mr/binary/<name>/<version>/binfiles?fileinfo=1\<close>, in the
  shape the function reads: \<^verbatim>\<open>result\<close> is a list of objects with the strings
  \<^verbatim>\<open>hash\<close> and \<^verbatim>\<open>architecture\<close>, \<^verbatim>\<open>fileinfo\<close> maps a hash to a list of objects with
  \<^verbatim>\<open>archive_name\<close> and \<^verbatim>\<open>first_seen\<close>. Either key may be missing from the object.
\<close>

record binresult =
  r_hash :: string
  r_architecture :: string

record fileentry =
  archive_name :: string
  fe_first_seen :: string

record binfiles =
  result :: "binresult list option"
  fileinfo :: "(string, fileentry list) dict option"

text \<open>\<^verbatim>\<open>data.get('result', [])\<close>.\<close>

definition get_result :: "binfiles \<Rightarrow> binresult list" where
  "get_result data = (case result data of None \<Rightarrow> [] | Some rs \<Rightarrow> rs)"

text \<open>The messages of the two architecture checks, lines 419 to 427.\<close>

definition explicit_msg :: "string \<Rightarrow> string \<Rightarrow> string \<Rightarrow> string" where
  "explicit_msg pkgname pkgarch found =
     ''Package '' @ pkgname @ '' was explicitly requested '' @ pkgarch
       @ '' but only '' @ found @ '' was found''"

definition implicit_msg :: "string \<Rightarrow> string \<Rightarrow> string \<Rightarrow> string" where
  "implicit_msg pkgname build_arch found =
     ''Package '' @ pkgname @ '' was implicitly requested '' @ build_arch
       @ '' but only '' @ found @ '' was found''"

text \<open>
  \<^verbatim>\<open>"{}".format(x)\<close> of a string or \<^verbatim>\<open>None\<close> is \<open>fmt x\<close>; on a string that is true
  it is the string itself.

  Lines 414 to 439: the choice of \<^verbatim>\<open>pkghash\<close>. The package is mutable and the function
  writes to it before it raises, so the model returns the package as the call leaves
  it beside the outcome, which is an exception or the chosen hash. In the branch of
  exactly one result the hash is taken unchecked (it may be empty); in the other
  branch the first result of the wanted architecture gives it, and an empty or
  missing one raises.
\<close>

definition fmt :: "string option \<Rightarrow> string" where
  "fmt x = (case x of None \<Rightarrow> ''None'' | Some s \<Rightarrow> s)"

definition wanted_arch :: "string \<Rightarrow> string option \<Rightarrow> string" where
  "wanted_arch build_arch pkgarch = (if \<not> truthy pkgarch then build_arch else fmt pkgarch)"

fun first_hash_of_arch :: "string \<Rightarrow> binresult list \<Rightarrow> string option" where
  "first_hash_of_arch a [] = None"
| "first_hash_of_arch a (r # rs) =
     (if r_architecture r = a then Some (r_hash r) else first_hash_of_arch a rs)"

definition choose_hash ::
  "string \<Rightarrow> binfiles \<Rightarrow> package \<Rightarrow> (exn + string) \<times> package" where
  "choose_hash build_arch data package =
     (let pkgname = name package; pkgarch = architecture package
      in case get_result data of
           [r] \<Rightarrow>
             (let package' = package\<lparr>architecture := Some (r_architecture r)\<rparr>
              in if truthy pkgarch \<and> pkgarch \<noteq> architecture package'
                 then (Inl (RebuilderException
                         (explicit_msg pkgname (fmt pkgarch) (r_architecture r))), package')
                 else if \<not> truthy pkgarch \<and> Some build_arch \<noteq> architecture package'
                           \<and> Some ''all'' \<noteq> architecture package'
                 then (Inl (RebuilderException
                         (implicit_msg pkgname build_arch (r_architecture r))), package')
                 else (Inr (r_hash r), package'))
         | rs \<Rightarrow>
             (let pkgarch' = wanted_arch build_arch pkgarch;
                  pkghash = first_hash_of_arch pkgarch' rs
              in if \<not> truthy pkghash
                 then (Inl (RebuilderException
                         (''Cannot find package in architecture '' @ pkgarch')), package)
                 else (Inr (fmt pkghash), package\<lparr>architecture := Some pkgarch'\<rparr>)))"

text \<open>Lines 441 to 451: the entries of the hash in the archive \<^verbatim>\<open>debian\<close>.\<close>

definition from_main :: "binfiles \<Rightarrow> string \<Rightarrow> exn + fileentry list" where
  "from_main data pkghash =
     (case fileinfo data of
        None \<Rightarrow> Inl (KeyError ''fileinfo'')
      | Some fi \<Rightarrow>
          Inr (filter (\<lambda>pkg. archive_name pkg = ''debian'')
                 (case map_of fi pkghash of None \<Rightarrow> [] | Some es \<Rightarrow> es)))"

definition record_first_seen ::
  "binfiles \<Rightarrow> string \<Rightarrow> package \<Rightarrow> (exn + string) \<times> package" where
  "record_first_seen data pkghash package =
     (case from_main data pkghash of
        Inl e \<Rightarrow> (Inl e, package)
      | Inr package_from_main \<Rightarrow>
          (case package_from_main of
             [] \<Rightarrow> (Inl (RebuilderException
                         ''No package with the right hash in Debian official''), package)
           | [e] \<Rightarrow> (Inr (fe_first_seen e),
                      package\<lparr>first_seen := Some (fe_first_seen e), hash := Some pkghash\<rparr>)
           | _ \<Rightarrow> (Inl (RebuilderException
                        ''More than one package with the same hash in Debian official''),
                    package)))"

text \<open>
  \<^verbatim>\<open>get_bin_date\<close>. \<open>get_response\<close> is the session: it gives the decoded body of a
  URL, or \<^const>\<open>None\<close> when the body is not JSON (\<^verbatim>\<open>JSONDecodeError\<close>); \<open>build_arch\<close> is
  \<^verbatim>\<open>self.buildinfo.build_arch\<close>.
\<close>

definition binfiles_url :: "string \<Rightarrow> package \<Rightarrow> string" where
  "binfiles_url snapshot_url package =
     snapshot_url @ ''/mr/binary/'' @ name package @ ''/'' @ version package
       @ ''/binfiles?fileinfo=1''"

definition get_bin_date ::
  "(string \<Rightarrow> binfiles option) \<Rightarrow> string \<Rightarrow> string \<Rightarrow> package
     \<Rightarrow> (exn + string) \<times> package" where
  "get_bin_date get_response snapshot_url build_arch package =
     (case get_response (binfiles_url snapshot_url package) of
        None \<Rightarrow>
          (Inl (RebuilderException
                  (''Cannot parse response for package: '' @ name package)), package)
      | Some data \<Rightarrow>
          (case choose_hash build_arch data package of
             (Inl e, package') \<Rightarrow> (Inl e, package')
           | (Inr pkghash, package') \<Rightarrow> record_first_seen data pkghash package'))"

section \<open>String operations of the parser\<close>

text \<open>
  Strings are lists of bytes and the input is read as ASCII. \<^verbatim>\<open>str.isspace\<close> on
  ASCII: tab, line feed, vertical tab, form feed, carriage return, the four
  separators \<open>0x1c\<close> to \<open>0x1f\<close>, and the blank.
\<close>

definition newline :: char where
  "newline = CHR 0x0A"

definition dquote :: char where
  "dquote = CHR 0x22"

definition isspace :: "char \<Rightarrow> bool" where
  "isspace c = (c \<in> set [CHR 0x09, CHR 0x0A, CHR 0x0B, CHR 0x0C, CHR 0x0D,
                           CHR 0x1C, CHR 0x1D, CHR 0x1E, CHR 0x1F, CHR '' ''])"

text \<open>\<^verbatim>\<open>s.strip()\<close> and \<^verbatim>\<open>s.lstrip('\n')\<close>.\<close>

definition strip :: "string \<Rightarrow> string" where
  "strip s = rev (dropWhile isspace (rev (dropWhile isspace s)))"

definition lstrip_newlines :: "string \<Rightarrow> string" where
  "lstrip_newlines s = dropWhile (\<lambda>c. c = newline) s"

text \<open>
  \<^verbatim>\<open>s.split('\n')\<close>: the pieces between the separators, at least one piece, empty
  pieces kept.
\<close>

fun split_on :: "char \<Rightarrow> string \<Rightarrow> string list" where
  "split_on d [] = [[]]"
| "split_on d (c # cs) =
     (if c = d then [] # split_on d cs
      else (case split_on d cs of [] \<Rightarrow> [[c]] | l # ls \<Rightarrow> (c # l) # ls))"

text \<open>
  \<^verbatim>\<open>s.split()\<close>: the maximal runs of characters that are not white space; \<open>cur\<close> is
  the run being read, reversed.
\<close>

fun split_ws_from :: "string \<Rightarrow> string \<Rightarrow> string list" where
  "split_ws_from cur [] = (if cur = [] then [] else [rev cur])"
| "split_ws_from cur (c # cs) =
     (if isspace c
      then (if cur = [] then split_ws_from [] cs else rev cur # split_ws_from [] cs)
      else split_ws_from (c # cur) cs)"

definition split_ws :: "string \<Rightarrow> string list" where
  "split_ws s = split_ws_from [] s"

text \<open>\<^verbatim>\<open>item[1].lstrip('\n').split('\n')\<close>, the lines of a folded field.\<close>

definition folded_lines :: "string \<Rightarrow> string list" where
  "folded_lines v = split_on newline (lstrip_newlines v)"

text \<open>\<^verbatim>\<open>s.replace(old, '')\<close> for a non-empty \<open>old\<close>, and \<^verbatim>\<open>s.lower()\<close> on ASCII.\<close>

function remove_all :: "string \<Rightarrow> string \<Rightarrow> string" where
  "remove_all old s =
     (if s = [] \<or> old = [] then s
      else if startswith s old then remove_all old (drop (length old) s)
      else hd s # remove_all old (tl s))"
  by pat_completeness auto
termination
  by (relation "measure (\<lambda>(old, s). length s)") auto

declare remove_all.simps [simp del]

definition lower_char :: "char \<Rightarrow> char" where
  "lower_char c =
     (case map_of (zip ''ABCDEFGHIJKLMNOPQRSTUVWXYZ'' ''abcdefghijklmnopqrstuvwxyz'') c of
        None \<Rightarrow> c
      | Some l \<Rightarrow> l)"

definition lower :: "string \<Rightarrow> string" where
  "lower s = map lower_char s"

section \<open>The two regular expressions\<close>

text \<open>
  \<^verbatim>\<open>re.match\<close> anchors at the start only and backtracks. \<^verbatim>\<open>(.*)\<close> followed by the rest
  \<open>k\<close> of the pattern takes the longest run of characters other than the line feed
  after which \<open>k\<close> matches: \<^term>\<open>star_dot k acc s\<close> tries the longer runs first and
  gives the group with \<open>k\<close>'s result; \<open>acc\<close> is the run so far, reversed. A literal is
  \<open>lit\<close>.
\<close>

fun star_dot :: "(string \<Rightarrow> 'a option) \<Rightarrow> string \<Rightarrow> string \<Rightarrow> (string \<times> 'a) option" where
  "star_dot k acc [] = map_option (Pair (rev acc)) (k [])"
| "star_dot k acc (c # cs) =
     (if c = newline then map_option (Pair (rev acc)) (k (c # cs))
      else (case star_dot k (c # acc) cs of
              Some r \<Rightarrow> Some r
            | None \<Rightarrow> map_option (Pair (rev acc)) (k (c # cs))))"

definition lit :: "string \<Rightarrow> (string \<Rightarrow> 'a option) \<Rightarrow> string \<Rightarrow> 'a option" where
  "lit p k s = (if startswith s p then k (drop (length p) s) else None)"

definition matched :: "string \<Rightarrow> unit option" where
  "matched s = Some ()"

text \<open>
  \<^verbatim>\<open>re.match(r'^(.*) \(= (.*)\),*', pkg)\<close>: the two groups. The trailing \<^verbatim>\<open>,*\<close>
  matches any number of commas, none included, so it never fails.
\<close>

definition match_build_depend :: "string \<Rightarrow> (string \<times> string) option" where
  "match_build_depend pkg =
     (case star_dot (lit '' (= '' (star_dot (lit '')'' matched) [])) [] pkg of
        None \<Rightarrow> None
      | Some (g1, g2, _) \<Rightarrow> Some (g1, g2))"

text \<open>
  \<^verbatim>\<open>re.match(r'^[^=](.*)="(.*)"', line)\<close>: one character that is not \<^verbatim>\<open>=\<close>, outside
  the groups, then the two groups around \<^verbatim>\<open>="\<close>, then a closing quote.
\<close>

definition match_environment :: "string \<Rightarrow> (string \<times> string) option" where
  "match_environment line =
     (case line of
        [] \<Rightarrow> None
      | c # rest \<Rightarrow>
          if c = CHR ''='' then None
          else (case star_dot (lit [CHR ''='', dquote]
                                 (star_dot (lit [dquote] matched) [])) [] rest of
                  None \<Rightarrow> None
                | Some (g1, g2, _) \<Rightarrow> Some (g1, g2)))"

text \<open>\<^verbatim>\<open>parsePkgBuildDepend\<close>.\<close>

definition parsePkgBuildDepend :: "string \<Rightarrow> package option" where
  "parsePkgBuildDepend pkg =
     (case match_build_depend pkg of
        None \<Rightarrow> None
      | Some (g1, g2) \<Rightarrow> Some (Package (strip g1) (strip g2) None))"

section \<open>The build record (\<^verbatim>\<open>BuildInfo\<close>)\<close>

text \<open>
  The attributes of \<^verbatim>\<open>BuildInfo\<close>. \<^verbatim>\<open>architecture\<close> and \<^verbatim>\<open>version\<close> carry the prefix
  \<open>bi_\<close>, the names being taken by \<^typ>\<open>package\<close>. The three flags are assigned
  after the scan of the file only (lines 191 to 202); until then they are
  \<^const>\<open>False\<close> here.
\<close>

record buildinfo =
  orig_file :: string
  source :: "string option"
  bi_architecture :: "string list option"
  binary :: "string list option"
  bi_version :: "string option"
  build_path :: "string option"
  build_arch :: "string option"
  build_date :: "string option"
  host_arch :: "string option"
  checksums :: checksums_t
  build_depends :: "package list"
  env :: "(string, string) dict"
  required_timestamps :: "string list"
  debian_suite :: "string option"
  build_source :: bool
  build_archall :: bool
  build_archany :: bool

text \<open>Lines 127 to 142.\<close>

definition new_buildinfo :: "string \<Rightarrow> buildinfo" where
  "new_buildinfo buildinfo_file =
     \<lparr>orig_file = buildinfo_file, source = None, bi_architecture = None, binary = None,
      bi_version = None, build_path = None, build_arch = None, build_date = None,
      host_arch = None, checksums = [], build_depends = [], env = [],
      required_timestamps = [], debian_suite = None,
      build_source = False, build_archall = False, build_archany = False\<rparr>"

text \<open>A loop whose body may raise, and \<^verbatim>\<open>d.get(k, default)\<close>.\<close>

fun for_each :: "('s \<Rightarrow> 'a \<Rightarrow> exn + 's) \<Rightarrow> 's \<Rightarrow> 'a list \<Rightarrow> exn + 's" where
  "for_each body s [] = Inr s"
| "for_each body s (x # xs) = seq (body s x) (\<lambda>s'. for_each body s' xs)"

definition get_default :: "('k, 'v) dict \<Rightarrow> 'k \<Rightarrow> 'v \<Rightarrow> 'v" where
  "get_default d k dflt = (case map_of d k of None \<Rightarrow> dflt | Some v \<Rightarrow> v)"

text \<open>
  Lines 170 to 176, one line of a \<^verbatim>\<open>Checksums-<alg>\<close> field. \<^verbatim>\<open>parsed_line[2]\<close> is
  evaluated first and raises \<^verbatim>\<open>IndexError\<close> on a line of fewer than three words. An
  entry that is missing or empty is set to the empty dictionary; then \<^verbatim>\<open>update\<close>
  writes \<^verbatim>\<open>"size"\<close> and the algorithm's key, in this order, over what is there.
\<close>

definition checksums_line :: "string \<Rightarrow> checksums_t \<Rightarrow> string \<Rightarrow> exn + checksums_t" where
  "checksums_line alg cs line =
     (let parsed_line = split_ws line
      in if length parsed_line < 3 then Inl IndexError
         else (let f = parsed_line ! 2;
                   cs1 = (if get_default cs f [] = [] then AList.update f [] cs else cs);
                   entry = AList.update alg (parsed_line ! 0)
                             (AList.update ''size'' (parsed_line ! 1) (get_default cs1 f []))
               in Inr (AList.update f entry cs1)))"

text \<open>Lines 178 to 183, one line of \<^verbatim>\<open>Installed-Build-Depends\<close>.\<close>

definition build_depends_line :: "package list \<Rightarrow> string \<Rightarrow> exn + package list" where
  "build_depends_line deps pkg =
     (case parsePkgBuildDepend pkg of
        None \<Rightarrow> Inl (BuildInfoException (''Cannot parse package: '' @ pkg))
      | Some parsed_pkg \<Rightarrow> Inr (deps @ [parsed_pkg]))"

text \<open>
  Lines 185 to 189, one line of \<^verbatim>\<open>Environment\<close>: a line that the expression does not
  match changes nothing.
\<close>

definition environment_line :: "(string, string) dict \<Rightarrow> string \<Rightarrow> (string, string) dict" where
  "environment_line e line =
     (case match_environment line of
        None \<Rightarrow> e
      | Some (g1, g2) \<Rightarrow> AList.update (strip g1) (strip g2) e)"

text \<open>
  Lines 151 to 189, one item \<open>(field, value)\<close> of a paragraph. The source tests the
  field name in a row of independent \<^verbatim>\<open>if\<close> statements.
\<close>

definition handle_item :: "buildinfo \<Rightarrow> string \<times> string \<Rightarrow> exn + buildinfo" where
  "handle_item b item =
     (let b1 = (if fst item = ''Source'' then b\<lparr>source := Some (snd item)\<rparr> else b);
          b2 = (if fst item = ''Architecture''
                then b1\<lparr>bi_architecture := Some (split_ws (snd item))\<rparr> else b1);
          b3 = (if fst item = ''Binary''
                then b2\<lparr>binary := Some (split_ws (snd item))\<rparr> else b2);
          b4 = (if fst item = ''Version'' then b3\<lparr>bi_version := Some (snd item)\<rparr> else b3);
          b5 = (if fst item = ''Build-Path''
                then b4\<lparr>build_path := Some (snd item)\<rparr> else b4);
          b6 = (if fst item = ''Build-Architecture''
                then b5\<lparr>build_arch := Some (snd item)\<rparr> else b5);
          b7 = (if fst item = ''Build-Date''
                then b6\<lparr>build_date := Some (snd item)\<rparr> else b6);
          b8 = (if fst item = ''Host-Architecture''
                then b7\<lparr>host_arch := Some (snd item)\<rparr> else b7)
      in seq (if startswith (fst item) ''Checksums-''
              then seq (for_each (checksums_line (lower (remove_all ''Checksums-'' (fst item))))
                          (checksums b8) (folded_lines (snd item)))
                     (\<lambda>cs. Inr (b8\<lparr>checksums := cs\<rparr>))
              else Inr b8) (\<lambda>b9.
         seq (if fst item = ''Installed-Build-Depends''
              then seq (for_each build_depends_line (build_depends b9)
                          (folded_lines (snd item)))
                     (\<lambda>deps. Inr (b9\<lparr>build_depends := deps\<rparr>))
              else Inr b9) (\<lambda>b10.
         Inr (if fst item = ''Environment''
              then b10\<lparr>env := foldl environment_line (env b10) (folded_lines (snd item))\<rparr>
              else b10))))"

text \<open>Lines 149 and 150: every item of every paragraph, in order.\<close>

definition scan :: "buildinfo \<Rightarrow> (string \<times> string) list list \<Rightarrow> exn + buildinfo" where
  "scan b paragraphs = for_each (for_each handle_item) b paragraphs"

text \<open>
  Lines 191 to 209. Without an \<^verbatim>\<open>Architecture\<close> field the attribute is still \<^verbatim>\<open>None\<close> and
  the first comprehension raises \<^verbatim>\<open>TypeError\<close>. \<open>candidate\<close> is the name that
  \<^verbatim>\<open>tempfile._get_candidate_names()\<close> gives.
\<close>

definition finish :: "string \<Rightarrow> buildinfo \<Rightarrow> exn + buildinfo" where
  "finish candidate b =
     (case bi_architecture b of
        None \<Rightarrow> Inl TypeError
      | Some archs \<Rightarrow>
          (let b1 = b\<lparr>build_source := (length (filter (\<lambda>arch. arch = ''source'') archs) = 1)\<rparr>;
               b2 = b1\<lparr>build_archall := (length (filter (\<lambda>arch. arch = ''all'') archs) = 1)\<rparr>;
               archs' = filter (\<lambda>arch. arch \<noteq> ''source'' \<and> arch \<noteq> ''all'') archs;
               b3 = b2\<lparr>bi_architecture := Some archs'\<rparr>
           in if length archs' > 1
              then Inl (BuildInfoException ''More than one architecture in Architecture field'')
              else (let b4 = b3\<lparr>build_archany := (length archs' = 1)\<rparr>
                    in if \<not> truthy (build_arch b4)
                       then Inl (BuildInfoException ''Need Build-Architecture field'')
                       else (let b5 = (if \<not> truthy (host_arch b4)
                                       then b4\<lparr>host_arch := build_arch b4\<rparr> else b4)
                             in Inr (if \<not> truthy (build_path b5)
                                     then b5\<lparr>build_path :=
                                            Some (''/build/'' @ fmt (source b5) @ ''-''
                                                    @ candidate)\<rparr>
                                     else b5)))))"

text \<open>
  \<^verbatim>\<open>BuildInfo.__init__\<close>. \<open>files\<close> is the file system as the constructor sees it: for a
  path that exists, the paragraphs that \<^verbatim>\<open>Deb822.iter_paragraphs\<close> reads from it, each
  a list of items \<open>(field, value)\<close>; a folded value starts with a line feed and keeps
  the leading blank of every continuation line.
\<close>

definition BuildInfo ::
  "(string \<Rightarrow> (string \<times> string) list list option) \<Rightarrow> string \<Rightarrow> string \<Rightarrow> exn + buildinfo" where
  "BuildInfo files candidate buildinfo_file =
     (case files buildinfo_file of
        None \<Rightarrow> Inl (BuildInfoException (''Cannot find buildinfo file: '' @ buildinfo_file))
      | Some paragraphs \<Rightarrow>
          seq (scan (new_buildinfo buildinfo_file) paragraphs) (finish candidate))"

text \<open>
  \<^verbatim>\<open>DEBIAN_VERSION\<close> and \<^verbatim>\<open>get_debian_suite\<close>. The loop goes through every build
  dependency: each \<^verbatim>\<open>base-files\<close> entry is looked up by its whole version string, a
  later one replacing the suite of an earlier one, and a missing key raises. The
  result is the suite with the record, whose \<^verbatim>\<open>debian_suite\<close> the call may have set.
\<close>

definition DEBIAN_VERSION :: "(string, string) dict" where
  "DEBIAN_VERSION =
     [(''6'', ''squeeze''), (''7'', ''wheezy''), (''8'', ''jessie''), (''9'', ''stretch''),
      (''10'', ''buster''), (''11'', ''bullseye''), (''12'', ''bookworm'')]"

definition suite_step :: "string option \<Rightarrow> package \<Rightarrow> exn + string option" where
  "suite_step suite pkg =
     (if name pkg = ''base-files''
      then (case map_of DEBIAN_VERSION (version pkg) of
              None \<Rightarrow> Inl (BuildInfoException ''Cannot determine Debian version'')
            | Some s \<Rightarrow> Inr (Some s))
      else Inr suite)"

definition get_debian_suite :: "buildinfo \<Rightarrow> exn + string option \<times> buildinfo" where
  "get_debian_suite b =
     (if \<not> truthy (debian_suite b)
      then seq (for_each suite_step (debian_suite b) (build_depends b))
             (\<lambda>suite. Inr (suite, b\<lparr>debian_suite := suite\<rparr>))
      else Inr (debian_suite b, b))"

section \<open>Dates (\<^verbatim>\<open>BuildInfo.get_build_date\<close>)\<close>

text \<open>
  What \<^verbatim>\<open>dateutil.parser.parse\<close> returns: the fields as written in the string, and
  the offset from UTC in seconds when the string has one. The parser itself is a
  library outside the program and is a parameter \<open>parsedate\<close> of the functions that
  call it; it raises \<^verbatim>\<open>ValueError\<close> on a string it cannot read.
\<close>

record datetime =
  dt_year :: nat
  dt_month :: nat
  dt_day :: nat
  dt_hour :: nat
  dt_minute :: nat
  dt_second :: nat
  dt_utcoffset :: "int option"

text \<open>
  Decimal digits and \<^verbatim>\<open>strftime("%Y%m%dT%H%M%SZ")\<close>: the object's own fields, month to
  second on two digits, and the letter \<^verbatim>\<open>Z\<close>, which is part of the format string.
\<close>

definition digit :: "nat \<Rightarrow> char" where
  "digit n = ''0123456789'' ! (n mod 10)"

function str_nat :: "nat \<Rightarrow> string" where
  "str_nat n = (if n < 10 then [digit n] else str_nat (n div 10) @ [digit n])"
  by pat_completeness auto
termination
  by (relation "measure id") auto

declare str_nat.simps [simp del]

definition two_digits :: "nat \<Rightarrow> string" where
  "two_digits n = (if n < 10 then CHR ''0'' # str_nat n else str_nat n)"

definition strftime :: "datetime \<Rightarrow> string" where
  "strftime dt =
     str_nat (dt_year dt) @ two_digits (dt_month dt) @ two_digits (dt_day dt) @ ''T''
       @ two_digits (dt_hour dt) @ two_digits (dt_minute dt) @ two_digits (dt_second dt)
       @ ''Z''"

text \<open>
  \<^verbatim>\<open>get_build_date\<close>: only \<^verbatim>\<open>ValueError\<close> is caught; \<^verbatim>\<open>parsedate(None)\<close>, for a file
  without \<^verbatim>\<open>Build-Date\<close>, is a \<^verbatim>\<open>TypeError\<close>.
\<close>

definition get_build_date :: "(string \<Rightarrow> exn + datetime) \<Rightarrow> buildinfo \<Rightarrow> exn + string" where
  "get_build_date parsedate b =
     (case build_date b of
        None \<Rightarrow> Inl TypeError
      | Some s \<Rightarrow>
          (case parsedate s of
             Inl (ValueError e) \<Rightarrow>
               Inl (RebuilderException (''Cannot parse '' @ [CHR 0x27] @ ''Build-Date''
                                          @ [CHR 0x27] @ '': '' @ e))
           | Inl e \<Rightarrow> Inl e
           | Inr dt \<Rightarrow> Inr (strftime dt)))"

text \<open>
  The claim about \<^verbatim>\<open>get_build_date\<close> speaks of the instant in UTC. The following
  follows these words, for the comparison with \<^const>\<open>strftime\<close>: the days of a civil
  date since 1970-01-01 in the proleptic Gregorian calendar and back, the
  instant of a \<^typ>\<open>datetime\<close> in seconds (a missing offset counts as UTC), and that
  instant written as \<^verbatim>\<open>YYYYMMDDTHHMMSSZ\<close> in UTC.
\<close>

definition days_from_civil :: "int \<Rightarrow> int \<Rightarrow> int \<Rightarrow> int" where
  "days_from_civil y m d =
     (let y' = (if m \<le> 2 then y - 1 else y);
          era = y' div 400;
          yoe = y' - era * 400;
          doy = (153 * (if m > 2 then m - 3 else m + 9) + 2) div 5 + d - 1;
          doe = yoe * 365 + yoe div 4 - yoe div 100 + doy
      in era * 146097 + doe - 719468)"

definition civil_of_month :: "int \<Rightarrow> int \<Rightarrow> int \<Rightarrow> int \<times> int \<times> int" where
  "civil_of_month y doy mp =
     ((if mp < 10 then y else y + 1), (if mp < 10 then mp + 3 else mp - 9),
      doy - (153 * mp + 2) div 5 + 1)"

definition civil_of_year :: "int \<Rightarrow> int \<Rightarrow> int \<Rightarrow> int \<times> int \<times> int" where
  "civil_of_year era doe yoe =
     civil_of_month (yoe + era * 400)
       (doe - (365 * yoe + yoe div 4 - yoe div 100))
       ((5 * (doe - (365 * yoe + yoe div 4 - yoe div 100)) + 2) div 153)"

definition civil_of_era :: "int \<Rightarrow> int \<Rightarrow> int \<times> int \<times> int" where
  "civil_of_era era doe =
     civil_of_year era doe ((doe - doe div 1460 + doe div 36524 - doe div 146096) div 365)"

definition civil_from_days :: "int \<Rightarrow> int \<times> int \<times> int" where
  "civil_from_days z =
     civil_of_era ((z + 719468) div 146097) ((z + 719468) mod 146097)"

definition spec_utc_instant :: "datetime \<Rightarrow> int" where
  "spec_utc_instant dt =
     days_from_civil (int (dt_year dt)) (int (dt_month dt)) (int (dt_day dt)) * 86400
       + int (dt_hour dt) * 3600 + int (dt_minute dt) * 60 + int (dt_second dt)
       - (case dt_utcoffset dt of None \<Rightarrow> 0 | Some off \<Rightarrow> off)"

definition stamp_of_civil :: "int \<times> int \<times> int \<Rightarrow> int \<Rightarrow> string" where
  "stamp_of_civil ymd sod =
     str_nat (nat (fst ymd)) @ two_digits (nat (fst (snd ymd)))
       @ two_digits (nat (snd (snd ymd))) @ ''T''
       @ two_digits (nat (sod div 3600)) @ two_digits (nat (sod mod 3600 div 60))
       @ two_digits (nat (sod mod 60)) @ ''Z''"

definition spec_utc_stamp :: "datetime \<Rightarrow> string" where
  "spec_utc_stamp dt =
     stamp_of_civil (civil_from_days (spec_utc_instant dt div 86400))
       (spec_utc_instant dt mod 86400)"

section \<open>The dependency resolver\<close>

text \<open>
  Line 349, the key of a package's bucket: \<^verbatim>\<open>parsedate(pkg.first_seen)\<close> formatted as
  above. No exception is caught here.
\<close>

definition stamp :: "(string \<Rightarrow> exn + datetime) \<Rightarrow> string option \<Rightarrow> exn + string" where
  "stamp parsedate seen =
     (case seen of
        None \<Rightarrow> Inl TypeError
      | Some s \<Rightarrow> seq (parsedate s) (\<lambda>dt. Inr (strftime dt)))"

text \<open>
  One round of the loop of \<^verbatim>\<open>get_build_depends_timestamps\<close>. \<^verbatim>\<open>get_bin_date\<close> changes
  the package it is given, and the list \<^verbatim>\<open>build_depends\<close> holds that same object:
  the state of the loop is the dictionary \<^verbatim>\<open>required_timestamps\<close> and the packages
  met so far, as the calls left them. \<^verbatim>\<open>setdefault(key, []).append(pkg)\<close> appends to
  the bucket of the key, a new key going to the end of the dictionary.
\<close>

definition setdefault_append :: "'k \<Rightarrow> 'v \<Rightarrow> ('k, 'v list) dict \<Rightarrow> ('k, 'v list) dict" where
  "setdefault_append k v d = AList.update k (get_default d k [] @ [v]) d"

definition timestamps_step ::
  "(string \<Rightarrow> binfiles option) \<Rightarrow> string \<Rightarrow> string \<Rightarrow> (string \<Rightarrow> exn + datetime)
     \<Rightarrow> (string, package list) dict \<times> package list \<Rightarrow> package
     \<Rightarrow> exn + (string, package list) dict \<times> package list" where
  "timestamps_step get_response snapshot_url barch parsedate st pkg =
     seq (if \<not> truthy (first_seen pkg)
          then (case get_bin_date get_response snapshot_url barch pkg of
                  (Inl e, _) \<Rightarrow> Inl e
                | (Inr _, pkg') \<Rightarrow> Inr pkg')
          else Inr pkg) (\<lambda>pkg'.
     seq (stamp parsedate (first_seen pkg')) (\<lambda>t.
     Inr (setdefault_append t pkg' (fst st), snd st @ [pkg'])))"

text \<open>
  \<^verbatim>\<open>sorted(items, key=lambda x: len(x[1]), reverse=True)\<close>. Python's sort is stable and
  \<^verbatim>\<open>reverse=True\<close> keeps the order of items with equal keys: an insertion sort on
  the negated length.
\<close>

definition sorted_by_len_reverse :: "('k \<times> 'v list) list \<Rightarrow> ('k \<times> 'v list) list" where
  "sorted_by_len_reverse items = sort_key (\<lambda>x. - int (length (snd x))) items"

text \<open>
  \<^verbatim>\<open>get_build_depends_timestamps\<close>, with the record whose build dependencies the
  calls of \<^verbatim>\<open>get_bin_date\<close> have filled. \<open>build_arch\<close> is not empty in a record that
  the constructor returned.
\<close>

definition get_build_depends_timestamps ::
  "(string \<Rightarrow> binfiles option) \<Rightarrow> string \<Rightarrow> (string \<Rightarrow> exn + datetime) \<Rightarrow> buildinfo
     \<Rightarrow> exn + (string \<times> package list) list \<times> buildinfo" where
  "get_build_depends_timestamps get_response snapshot_url parsedate b =
     seq (for_each (timestamps_step get_response snapshot_url (fmt (build_arch b)) parsedate)
            ([], []) (build_depends b)) (\<lambda>st.
     Inr (sorted_by_len_reverse (fst st), b\<lparr>build_depends := snd st\<rparr>))"

text \<open>\<^verbatim>\<open>get_sources_list_from_timestamp\<close>.\<close>

definition snapshot_line :: "string \<Rightarrow> string \<Rightarrow> string" where
  "snapshot_line base_mirror timestamp =
     ''deb '' @ base_mirror @ ''/'' @ timestamp @ '' unstable main''"

definition get_sources_list_from_timestamp ::
  "(string \<Rightarrow> binfiles option) \<Rightarrow> string \<Rightarrow> string \<Rightarrow> (string \<Rightarrow> exn + datetime) \<Rightarrow> buildinfo
     \<Rightarrow> exn + (string \<times> package list) list \<times> buildinfo" where
  "get_sources_list_from_timestamp get_response snapshot_url base_mirror parsedate b =
     seq (get_build_depends_timestamps get_response snapshot_url parsedate b) (\<lambda>r.
     Inr (map (\<lambda>x. (snapshot_line base_mirror (fst x), snd x)) (fst r), snd r))"

text \<open>
  The apt cache is outside the program: \<open>cache\<close> answers, for the timestamp sources
  written to \<^verbatim>\<open>sources.list\<close> so far (after the base entries), whether it has the
  package \<^verbatim>\<open>name:architecture\<close> with a record of the version. Lines 475 to 479
  remove from \<^verbatim>\<open>notfound_packages\<close> every package that the cache has, going through
  a copy of the list. Packages have no \<^verbatim>\<open>__eq__\<close>, so \<^verbatim>\<open>in\<close> and \<^verbatim>\<open>remove\<close> compare
  objects; every object of the buckets is an object of \<^verbatim>\<open>build_depends\<close>, and equal
  records get the same answer from the cache, so comparing records gives the same
  lists.
\<close>

definition in_cache :: "(string list \<Rightarrow> string \<Rightarrow> string \<Rightarrow> bool) \<Rightarrow> string list \<Rightarrow> package \<Rightarrow> bool" where
  "in_cache cache sources pkg =
     cache sources (name pkg @ '':'' @ fmt (architecture pkg)) (version pkg)"

definition remove_found ::
  "(string list \<Rightarrow> string \<Rightarrow> string \<Rightarrow> bool) \<Rightarrow> string list \<Rightarrow> package list \<Rightarrow> package list" where
  "remove_found cache sources notfound_packages =
     fold (\<lambda>notfound_pkg nf. if in_cache cache sources notfound_pkg
                              then remove1 notfound_pkg nf else nf)
       notfound_packages notfound_packages"

text \<open>
  The loop of lines 457 to 485 over the candidates: the state is
  \<^verbatim>\<open>notfound_packages\<close> and \<^verbatim>\<open>required_timestamp_sources\<close>. \<^verbatim>\<open>break\<close> once nothing is
  missing, \<^verbatim>\<open>continue\<close> past a candidate that covers no missing package.
\<close>

fun select_sources ::
  "(string list \<Rightarrow> string \<Rightarrow> string \<Rightarrow> bool) \<Rightarrow> (string \<times> package list) list
     \<Rightarrow> package list \<Rightarrow> string list \<Rightarrow> package list \<times> string list" where
  "select_sources cache [] notfound required = (notfound, required)"
| "select_sources cache ((timestamp_source, pkgs) # rest) notfound required =
     (if notfound = [] then (notfound, required)
      else if \<not> list_ex (\<lambda>pkg. pkg \<in> set notfound) pkgs
      then select_sources cache rest notfound required
      else select_sources cache rest
             (remove_found cache (required @ [timestamp_source]) notfound)
             (required @ [timestamp_source]))"

text \<open>
  \<^verbatim>\<open>find_build_dependencies\<close>, for a rebuilder whose \<^verbatim>\<open>required_timestamp_sources\<close> is
  still empty, as in \<^verbatim>\<open>run\<close>. The result is \<^verbatim>\<open>required_timestamp_sources\<close> after the
  call and the record with its build dependencies resolved.
\<close>

definition find_build_dependencies ::
  "(string list \<Rightarrow> string \<Rightarrow> string \<Rightarrow> bool) \<Rightarrow> (string \<Rightarrow> binfiles option) \<Rightarrow> string \<Rightarrow> string
     \<Rightarrow> (string \<Rightarrow> exn + datetime) \<Rightarrow> buildinfo \<Rightarrow> exn + string list \<times> buildinfo" where
  "find_build_dependencies cache get_response snapshot_url base_mirror parsedate b =
     seq (get_sources_list_from_timestamp get_response snapshot_url base_mirror parsedate b)
       (\<lambda>r. case select_sources cache (fst r) (build_depends (snd r)) [] of
               (notfound, required) \<Rightarrow>
                 if notfound \<noteq> []
                 then Inl (RebuilderException
                        (''Cannot locate the following packages via ''
                           @ ''snapshots or the current repo/mirror''))
                 else Inr (required, snd r))"

section \<open>Files and services used to run the model\<close>

text \<open>
  The \<^verbatim>\<open>.buildinfo\<close> of \<^verbatim>\<open>hello 2.10-2\<close> as \<^verbatim>\<open>Deb822\<close> gives it, with the value of
  \<^verbatim>\<open>Architecture\<close>, the checksum fields, the build date and the value of
  \<^verbatim>\<open>Environment\<close> left open; a file system with that one file; and the values of
  \<^verbatim>\<open>dateutil\<close>'s parser on the dates that occur below.
\<close>

definition hello_paragraphs ::
  "string \<Rightarrow> (string \<times> string) list \<Rightarrow> string \<Rightarrow> string \<Rightarrow> (string \<times> string) list list" where
  "hello_paragraphs arch sums date envv =
     [[(''Format'', ''1.0''), (''Source'', ''hello''), (''Binary'', ''hello''),
       (''Architecture'', arch), (''Version'', ''2.10-2'')]
      @ sums
      @ [(''Build-Architecture'', ''amd64''), (''Build-Date'', date),
         (''Installed-Build-Depends'',
            newline # '' base-files (= 11.1),'' @ newline # '' libc6 (= 2.31-13)''),
         (''Environment'', envv)]]"

definition hello_sha256 :: "(string \<times> string) list" where
  "hello_sha256 = [(''Checksums-Sha256'', newline # '' 9d3f 56132 hello_2.10-2_amd64.deb'')]"

definition hello_env :: string where
  "hello_env = newline # '' DEB_BUILD_OPTIONS='' @ dquote # ''parallel=4'' @ [dquote]
                 @ newline # '' LANG='' @ dquote # ''C.UTF-8'' @ [dquote]"

definition one_file ::
  "(string \<times> string) list list \<Rightarrow> string \<Rightarrow> (string \<times> string) list list option" where
  "one_file paragraphs path =
     (if path = ''/srv/hello_2.10-2_amd64.buildinfo'' then Some paragraphs else None)"

definition dateutil_values :: "string \<Rightarrow> exn + datetime" where
  "dateutil_values s =
     (if s = ''Tue, 04 May 2021 12:00:00 +0000'' \<or> s = ''20210504T120000Z''
      then Inr \<lparr>dt_year = 2021, dt_month = 5, dt_day = 4, dt_hour = 12, dt_minute = 0,
                dt_second = 0, dt_utcoffset = Some 0\<rparr>
      else if s = ''Tue, 04 May 2021 12:00:00 +0200''
      then Inr \<lparr>dt_year = 2021, dt_month = 5, dt_day = 4, dt_hour = 12, dt_minute = 0,
                dt_second = 0, dt_utcoffset = Some 7200\<rparr>
      else if s = ''20210301T083000Z''
      then Inr \<lparr>dt_year = 2021, dt_month = 3, dt_day = 1, dt_hour = 8, dt_minute = 30,
                dt_second = 0, dt_utcoffset = Some 0\<rparr>
      else Inl (ValueError (''Unknown string format: '' @ s)))"

text \<open>Checksum maps used to run the verifier: a binary alone, and a source with its binary.\<close>

definition hello_checksums :: checksums_t where
  "hello_checksums =
     [(''hello_2.10-2_amd64.deb'', [(''size'', ''56132''), (''sha256'', ''9d3f'')])]"

definition hello_src_checksums :: checksums_t where
  "hello_src_checksums =
     [(''hello_2.10-2.dsc'', [(''size'', ''1317''), (''sha256'', ''01ab'')]),
      (''hello_2.10-2_amd64.deb'', [(''size'', ''56132''), (''sha256'', ''9d3f'')])]"

definition two_debs_checksums :: checksums_t where
  "two_debs_checksums =
     [(''hello_2.10-2_amd64.deb'', [(''size'', ''56132''), (''sha256'', ''9d3f'')]),
      (''hello-dbgsym_2.10-2_amd64.deb'', [(''size'', ''800''), (''sha256'', ''77aa'')])]"

definition renamed_debs_checksums :: checksums_t where
  "renamed_debs_checksums =
     [(''hello_2.10-2_amd64.deb'', [(''size'', ''56132''), (''sha256'', ''9d3f'')]),
      (''hello-doc_2.10-2_all.deb'', [(''size'', ''800''), (''sha256'', ''77aa'')])]"

definition resized_debs_checksums :: checksums_t where
  "resized_debs_checksums =
     [(''hello_2.10-2_amd64.deb'', [(''size'', ''56140''), (''sha256'', ''9d3f'')]),
      (''hello-doc_2.10-2_all.deb'', [(''size'', ''800''), (''sha256'', ''77aa'')])]"

text \<open>
  A session that knows one binary, \<^verbatim>\<open>foo 1.0\<close>, built for \<^verbatim>\<open>amd64\<close> only, and two
  ways of asking for it. The \<^verbatim>\<open>fileinfo\<close> of the answer also lists another hash, first,
  and the file's hash in two archives.
\<close>

definition foo_result :: binresult where
  "foo_result = \<lparr>r_hash = ''aa11'', r_architecture = ''amd64''\<rparr>"

definition foo_binfiles :: binfiles where
  "foo_binfiles =
     \<lparr>result = Some [foo_result],
      fileinfo = Some [(''bb22'', [\<lparr>archive_name = ''debian'',
                                   fe_first_seen = ''20190101T000000Z''\<rparr>]),
                       (''aa11'', [\<lparr>archive_name = ''debian-backports'',
                                   fe_first_seen = ''20210601T000000Z''\<rparr>,
                                  \<lparr>archive_name = ''debian'',
                                   fe_first_seen = ''20210504T120000Z''\<rparr>])]\<rparr>"

definition foo_session :: "string \<Rightarrow> binfiles option" where
  "foo_session url =
     (if url = ''http://snapshot.debian.org/mr/binary/foo/1.0/binfiles?fileinfo=1''
      then Some foo_binfiles else None)"

definition foo_i386 :: package where
  "foo_i386 = Package ''foo'' ''1.0'' (Some ''i386'')"

definition foo_any :: package where
  "foo_any = Package ''foo'' ''1.0'' None"

text \<open>
  What the scan leaves of the file above, before lines 191 to 209, for given words
  of \<^verbatim>\<open>Architecture\<close>; checksum fields that give one file two sizes; and an
  \<^verbatim>\<open>Environment\<close> whose second line has no quotes.
\<close>

definition hello_scanned :: "string list \<Rightarrow> buildinfo" where
  "hello_scanned archs =
     \<lparr>orig_file = ''/srv/hello_2.10-2_amd64.buildinfo'', source = Some ''hello'',
      bi_architecture = Some archs, binary = Some [''hello''], bi_version = Some ''2.10-2'',
      build_path = None, build_arch = Some ''amd64'',
      build_date = Some ''Tue, 04 May 2021 12:00:00 +0000'', host_arch = None,
      checksums = [(''hello_2.10-2_amd64.deb'', [(''size'', ''56132''), (''sha256'', ''9d3f'')])],
      build_depends = [Package ''base-files'' ''11.1'' None, Package ''libc6'' ''2.31-13'' None],
      env = [(''DEB_BUILD_OPTIONS'', ''parallel=4''), (''LANG'', ''C.UTF-8'')],
      required_timestamps = [], debian_suite = None,
      build_source = False, build_archall = False, build_archany = False\<rparr>"

definition hello_two_sizes :: "(string \<times> string) list" where
  "hello_two_sizes =
     [(''Checksums-Md5'', newline # '' aa11 100 hello_2.10-2_amd64.deb''),
      (''Checksums-Sha256'', newline # '' 9d3f 56132 hello_2.10-2_amd64.deb'')]"

text \<open>The entries after a \<^verbatim>\<open>Checksums-Md5\<close> field that names two files.\<close>

definition hello_md5_read :: checksums_t where
  "hello_md5_read =
     [(''hello_2.10-2_amd64.deb'', [(''size'', ''100''), (''md5'', ''aa11'')]),
      (''hello-doc_2.10-2_all.deb'', [(''size'', ''800''), (''md5'', ''bb22'')])]"

definition hello_env_unquoted :: string where
  "hello_env_unquoted = newline # '' DEB_BUILD_OPTIONS='' @ dquote # ''parallel=4'' @ [dquote]
                          @ newline # '' LANG=C.UTF-8''"

section \<open>Notions used to state the properties\<close>

text \<open>No file of a checksum map has an empty dictionary of properties.\<close>

definition entries_nonempty :: "checksums_t \<Rightarrow> bool" where
  "entries_nonempty cs = (\<forall>f e. map_of cs f = Some e \<longrightarrow> e \<noteq> [])"

text \<open>
  The key under which the loop of \<^verbatim>\<open>get_build_depends_timestamps\<close> files a resolved
  package, and the dictionary that \<^verbatim>\<open>setdefault(key, []).append(x)\<close> builds from a list,
  starting from \<open>d\<close>.
\<close>

definition stamp_key :: "(string \<Rightarrow> exn + datetime) \<Rightarrow> package \<Rightarrow> string" where
  "stamp_key parsedate p = (case stamp parsedate (first_seen p) of Inl _ \<Rightarrow> [] | Inr t \<Rightarrow> t)"

definition buckets :: "('v \<Rightarrow> 'k) \<Rightarrow> 'v list \<Rightarrow> ('k, 'v list) dict \<Rightarrow> ('k, 'v list) dict" where
  "buckets key xs d = fold (\<lambda>x. setdefault_append (key x) x) xs d"

text \<open>The elements of a list in the order of their first occurrence, those of \<open>seen\<close> left out.\<close>

fun first_occurrences :: "'a list \<Rightarrow> 'a list \<Rightarrow> 'a list" where
  "first_occurrences seen [] = []"
| "first_occurrences seen (x # xs) =
     (if x \<in> set seen then first_occurrences seen xs
      else x # first_occurrences (x # seen) xs)"

text \<open>
  Ten build dependencies: \<^verbatim>\<open>libc6\<close> was first seen on 2021-03-01, the other nine on
  2021-05-04. A session that answers so, the packages as resolved, and two apt
  caches: in one every package is found only in the snapshot of its first day, in
  the other the later snapshot still holds all ten.
\<close>

definition binfiles_seen :: "string \<Rightarrow> binfiles" where
  "binfiles_seen t =
     \<lparr>result = Some [\<lparr>r_hash = ''aa11'', r_architecture = ''amd64''\<rparr>],
      fileinfo = Some [(''aa11'', [\<lparr>archive_name = ''debian'', fe_first_seen = t\<rparr>])]\<rparr>"

definition ten_names :: "string list" where
  "ten_names = [''libc6'', ''binutils'', ''bzip2'', ''coreutils'', ''dpkg-dev'', ''gcc-10'',
                ''make'', ''perl'', ''sed'', ''tar'']"

definition ten_session :: "string \<Rightarrow> binfiles option" where
  "ten_session url =
     Some (binfiles_seen
             (if url = ''http://snapshot.debian.org/mr/binary/libc6/1.0/binfiles?fileinfo=1''
              then ''20210301T083000Z'' else ''20210504T120000Z''))"

definition ten_buildinfo :: buildinfo where
  "ten_buildinfo =
     (hello_scanned [''amd64''])\<lparr>build_depends := map (\<lambda>n. Package n ''1.0'' None) ten_names\<rparr>"

definition resolved :: "string \<Rightarrow> string \<Rightarrow> package" where
  "resolved t n =
     \<lparr>name = n, version = ''1.0'', architecture = Some ''amd64'', first_seen = Some t,
      hash = Some ''aa11''\<rparr>"

definition ten_resolved :: "package list" where
  "ten_resolved =
     resolved ''20210301T083000Z'' ''libc6'' # map (resolved ''20210504T120000Z'') (tl ten_names)"

definition cache_whole_archive :: "string list \<Rightarrow> string \<Rightarrow> string \<Rightarrow> bool" where
  "cache_whole_archive sources pkg ver =
     (''deb http://snapshot.debian.org/archive/debian/20210504T120000Z unstable main''
        \<in> set sources)"

definition cache_first_seen_only :: "string list \<Rightarrow> string \<Rightarrow> string \<Rightarrow> bool" where
  "cache_first_seen_only sources pkg ver =
     ((if pkg = ''libc6:amd64''
       then ''deb http://snapshot.debian.org/archive/debian/20210301T083000Z unstable main''
       else ''deb http://snapshot.debian.org/archive/debian/20210504T120000Z unstable main'')
        \<in> set sources)"

section \<open>Properties of the verifier\<close>

lemma seq_Inr [simp]: "seq (Inr v) f = f v"
  by (simp add: seq_def)

lemma seq_Inl [simp]: "seq (Inl e) f = Inl e"
  by (simp add: seq_def)

lemma getitem_Some: "map_of d k = Some v \<Longrightarrow> getitem d k = Inr v"
  by (simp add: getitem_def)

lemma getitem_None: "map_of d k = None \<Longrightarrow> getitem d k = Inl (KeyError k)"
  by (simp add: getitem_def)

lemma key_has_value:
  assumes "k \<in> set (keys d)"
  obtains v where "map_of d k = Some v"
  using assms by (cases "map_of d k") (auto simp: keys_def map_of_eq_None_iff)

lemma check_prop_self:
  assumes "map_of b f = Some ps" and "p \<in> set (keys ps)"
  shows "check_prop b b f p = Inr ()"
proof -
  from assms(2) obtain v where "map_of ps p = Some v"
    by (rule key_has_value)
  with assms show ?thesis
    by (auto simp: check_prop_def getitem_Some)
qed

lemma check_props_self:
  assumes "map_of b f = Some ps" and "set qs \<subseteq> set (keys ps)"
  shows "check_props b b f qs = Inr ()"
  using assms(2) by (induction qs) (simp_all add: check_prop_self [OF assms(1)])

lemma check_file_self:
  assumes "f \<in> set (keys b)"
  shows "check_file b b f = Inr ()"
proof -
  from assms obtain ps where ps: "map_of b f = Some ps"
    by (rule key_has_value)
  show ?thesis
    by (simp add: check_file_def getitem_Some [OF ps] check_props_self [OF ps])
qed

lemma check_files_self: "set fs \<subseteq> set (keys b) \<Longrightarrow> check_files b b fs = Inr ()"
  by (induction fs) (simp_all add: check_file_self)

lemma length_filter_all: "length (filter P xs) = length xs \<longleftrightarrow> (\<forall>x\<in>set xs. P x)"
  by (metis filter_id_conv length_filter_less less_irrefl)

text \<open>
  C1, as stated, fails: a build record whose checksums list a \<^verbatim>\<open>.dsc\<close> file does not
  verify against itself. The \<^verbatim>\<open>.dsc\<close> names are dropped from the original's side
  only, so the two counts differ by the number of \<^verbatim>\<open>.dsc\<close> files.
\<close>

theorem verify_identity_dsc_counterexample:
  "verify_checksums hello_src_checksums hello_src_checksums =
     Inl (RebuilderException ''New buildinfo contains a different number of files.'')"
  by (simp add: verify_checksums_def hello_src_checksums_def keys_def endswith_def)

text \<open>
  C1, amended: \<^verbatim>\<open>verify_checksums\<close> of a build record against itself returns normally
  exactly when no file name of its checksums ends in \<^verbatim>\<open>.dsc\<close>.
\<close>

theorem verify_identity_iff_no_dsc:
  "verify_checksums b b = Inr () \<longleftrightarrow> (\<forall>f\<in>set (keys b). \<not> endswith f ''.dsc'')"
  by (auto simp: verify_checksums_def Let_def length_filter_all check_files_self)

theorem verify_identity_iff_no_dsc_witness:
  "verify_checksums hello_checksums hello_checksums = Inr ()"
proof -
  have "\<forall>f\<in>set (keys hello_checksums). \<not> endswith f ''.dsc''"
    by (simp add: hello_checksums_def keys_def endswith_def)
  then show ?thesis
    using verify_identity_iff_no_dsc [of hello_checksums] by simp
qed

lemma check_file_absent:
  assumes "map_of old f = Some old_f" and "old_f \<noteq> []" and "map_of new f = None"
  shows "check_file old new f = Inl (KeyError f)"
proof -
  from assms(2) obtain p v rest where "old_f = (p, v) # rest"
    by (cases old_f) auto
  with assms(1,3) show ?thesis
    by (simp add: check_file_def keys_def check_prop_def getitem_Some getitem_None getitem_def)
qed

lemma check_files_passed_prefix:
  "list_all (\<lambda>g. check_file old new g = Inr ()) pre \<Longrightarrow>
   check_files old new (pre @ fs) = check_files old new fs"
  by (induction pre) simp_all

text \<open>
  C9, as stated, fails: here the two counts agree and \<^verbatim>\<open>hello-dbgsym_2.10-2_amd64.deb\<close>
  of the original is missing from the rebuilt map, but the file before it has
  another size in the rebuilt map, and the loop raises the \<^verbatim>\<open>RebuilderException\<close> of
  that file before it comes to the missing one.
\<close>

theorem verify_absent_file_after_mismatch_counterexample:
  "length (filter (\<lambda>f. \<not> endswith f ''.dsc'') (keys two_debs_checksums))
     = length (keys resized_debs_checksums)
   \<and> \<not> endswith ''hello-dbgsym_2.10-2_amd64.deb'' ''.dsc''
   \<and> ''hello-dbgsym_2.10-2_amd64.deb'' \<in> set (keys two_debs_checksums)
   \<and> map_of resized_debs_checksums ''hello-dbgsym_2.10-2_amd64.deb'' = None
   \<and> verify_checksums two_debs_checksums resized_debs_checksums
     = Inl (RebuilderException ''Size differs for hello_2.10-2_amd64.deb'')"
  by code_simp

text \<open>
  C9, amended: when the two counts agree and the loop over the original's files (the
  \<^verbatim>\<open>.dsc\<close> names left out) reaches a file \<open>f\<close> that the rebuilt map does not have, every
  file before it having compared equal, \<^verbatim>\<open>verify_checksums\<close> ends with \<^verbatim>\<open>KeyError(f)\<close>,
  which is not a \<^verbatim>\<open>RebuilderException\<close>. The entry of \<open>f\<close> in the original is not empty,
  as is every entry that the parser writes (\<open>parsed_entries_nonempty\<close> below).
\<close>

theorem verify_absent_file_KeyError:
  assumes "length (filter (\<lambda>f. \<not> endswith f ''.dsc'') (keys old)) = length (keys new)"
    and "filter (\<lambda>f. \<not> endswith f ''.dsc'') (keys old) = pre @ f # post"
    and "list_all (\<lambda>g. check_file old new g = Inr ()) pre"
    and "map_of old f = Some old_f" and "old_f \<noteq> []"
    and "map_of new f = None"
  shows "verify_checksums old new = Inl (KeyError f)"
proof -
  have "check_files old new (pre @ f # post) = check_files old new (f # post)"
    using assms(3) by (rule check_files_passed_prefix)
  also have "\<dots> = Inl (KeyError f)"
    by (simp add: check_file_absent [OF assms(4,5,6)])
  finally show ?thesis
    using assms(1,2) by (simp add: verify_checksums_def Let_def)
qed

theorem verify_absent_file_KeyError_witness:
  "verify_checksums two_debs_checksums renamed_debs_checksums =
     Inl (KeyError ''hello-dbgsym_2.10-2_amd64.deb'')"
proof (rule verify_absent_file_KeyError
    [where pre = "[''hello_2.10-2_amd64.deb'']" and post = "[]"
       and old_f = "[(''size'', ''800''), (''sha256'', ''77aa'')]"])
  show "length (filter (\<lambda>f. \<not> endswith f ''.dsc'') (keys two_debs_checksums))
      = length (keys renamed_debs_checksums)"
    by (simp add: two_debs_checksums_def renamed_debs_checksums_def keys_def endswith_def)
  show "filter (\<lambda>f. \<not> endswith f ''.dsc'') (keys two_debs_checksums)
      = [''hello_2.10-2_amd64.deb''] @ [''hello-dbgsym_2.10-2_amd64.deb'']"
    by (simp add: two_debs_checksums_def keys_def endswith_def)
  show "list_all (\<lambda>g. check_file two_debs_checksums renamed_debs_checksums g = Inr ())
      [''hello_2.10-2_amd64.deb'']"
    by (simp add: two_debs_checksums_def renamed_debs_checksums_def check_file_def
        check_prop_def getitem_def keys_def)
  show "map_of two_debs_checksums ''hello-dbgsym_2.10-2_amd64.deb''
      = Some [(''size'', ''800''), (''sha256'', ''77aa'')]"
    by (simp add: two_debs_checksums_def)
  show "[(''size'', ''800''), (''sha256'', ''77aa'')] \<noteq> []"
    by simp
  show "map_of renamed_debs_checksums ''hello-dbgsym_2.10-2_amd64.deb'' = None"
    by (simp add: renamed_debs_checksums_def)
qed

text \<open>
  Whatever the other files, a file of the original that the rebuilt map lacks makes
  the verification fail: by that \<^verbatim>\<open>KeyError\<close>, or by the exception of a file before it.
\<close>

lemma check_files_absent_fail:
  assumes "f \<in> set files" and "map_of new f = None"
    and "\<And>g. g \<in> set files \<Longrightarrow> \<exists>e. map_of old g = Some e \<and> e \<noteq> []"
  shows "\<exists>e. check_files old new files = Inl e"
  using assms(1,3)
proof (induction files)
  case Nil
  then show ?case by simp
next
  case (Cons g gs)
  show ?case
  proof (cases "check_file old new g")
    case (Inl e)
    then show ?thesis by simp
  next
    case (Inr u)
    have "g \<noteq> f"
    proof
      assume "g = f"
      with Cons.prems(2) [of g] obtain e where "map_of old f = Some e" "e \<noteq> []" by auto
      then have "check_file old new f = Inl (KeyError f)"
        using assms(2) by (rule check_file_absent)
      with Inr \<open>g = f\<close> show False by simp
    qed
    with Cons.prems(1) have "f \<in> set gs" by simp
    then have "\<exists>e. check_files old new gs = Inl e"
      using Cons.prems(2) by (intro Cons.IH) auto
    with Inr show ?thesis by simp
  qed
qed

lemma verify_absent_file_fails:
  assumes "f \<in> set (keys old)" and "\<not> endswith f ''.dsc''" and "map_of new f = None"
    and "\<And>g e. map_of old g = Some e \<Longrightarrow> e \<noteq> []"
  shows "\<exists>e. verify_checksums old new = Inl e"
proof (cases "length (filter (\<lambda>f. \<not> endswith f ''.dsc'') (keys old)) = length (keys new)")
  case True
  have "\<exists>e. check_files old new (filter (\<lambda>f. \<not> endswith f ''.dsc'') (keys old)) = Inl e"
  proof (rule check_files_absent_fail [of f])
    show "f \<in> set (filter (\<lambda>f. \<not> endswith f ''.dsc'') (keys old))"
      using assms(1,2) by simp
    show "map_of new f = None" by (rule assms(3))
    fix g assume "g \<in> set (filter (\<lambda>f. \<not> endswith f ''.dsc'') (keys old))"
    then have "g \<in> set (keys old)" by simp
    then obtain e where "map_of old g = Some e" by (rule key_has_value)
    with assms(4) show "\<exists>e. map_of old g = Some e \<and> e \<noteq> []" by blast
  qed
  with True show ?thesis by (simp add: verify_checksums_def Let_def)
next
  case False
  then show ?thesis by (simp add: verify_checksums_def Let_def)
qed

section \<open>Properties of the snapshot client\<close>

lemma choose_hash_single:
  assumes "result data = Some [r]"
  shows "choose_hash barch data package =
     (if truthy (architecture package) \<and> architecture package \<noteq> Some (r_architecture r)
      then (Inl (RebuilderException
                  (explicit_msg (name package) (fmt (architecture package))
                     (r_architecture r))),
            package\<lparr>architecture := Some (r_architecture r)\<rparr>)
      else if \<not> truthy (architecture package) \<and> barch \<noteq> r_architecture r
                \<and> ''all'' \<noteq> r_architecture r
      then (Inl (RebuilderException
                  (implicit_msg (name package) barch (r_architecture r))),
            package\<lparr>architecture := Some (r_architecture r)\<rparr>)
      else (Inr (r_hash r), package\<lparr>architecture := Some (r_architecture r)\<rparr>))"
proof (cases "truthy (architecture package)")
  case True
  with assms show ?thesis
    by (simp add: choose_hash_def get_result_def Let_def)
next
  case False
  with assms show ?thesis
    by (simp add: choose_hash_def get_result_def Let_def)
qed

lemma get_bin_date_single:
  assumes "get_response (binfiles_url snapshot_url package) = Some data"
    and "result data = Some [r]"
  shows "get_bin_date get_response snapshot_url barch package =
     (if truthy (architecture package) \<and> architecture package \<noteq> Some (r_architecture r)
      then (Inl (RebuilderException
                  (explicit_msg (name package) (fmt (architecture package))
                     (r_architecture r))),
            package\<lparr>architecture := Some (r_architecture r)\<rparr>)
      else if \<not> truthy (architecture package) \<and> barch \<noteq> r_architecture r
                \<and> ''all'' \<noteq> r_architecture r
      then (Inl (RebuilderException
                  (implicit_msg (name package) barch (r_architecture r))),
            package\<lparr>architecture := Some (r_architecture r)\<rparr>)
      else record_first_seen data (r_hash r)
             (package\<lparr>architecture := Some (r_architecture r)\<rparr>))"
proof (cases "truthy (architecture package)")
  case True
  then show ?thesis
    by (simp add: get_bin_date_def assms(1) choose_hash_single [OF assms(2)])
next
  case False
  then show ?thesis
    by (simp add: get_bin_date_def assms(1) choose_hash_single [OF assms(2)])
qed

text \<open>The lookup of \<^verbatim>\<open>fileinfo\<close> raises neither of the two architecture messages.\<close>

lemma record_first_seen_not_arch:
  "fst (record_first_seen data h p) \<noteq> Inl (RebuilderException (explicit_msg n a b))"
  "fst (record_first_seen data h p) \<noteq> Inl (RebuilderException (implicit_msg n a b))"
  by (auto simp: record_first_seen_def from_main_def explicit_msg_def implicit_msg_def
      split: sum.splits list.splits option.splits)

text \<open>Lines 441 to 451 in terms of the answer alone.\<close>

lemma record_first_seen_cases:
  "record_first_seen data h p =
     (case fileinfo data of
        None \<Rightarrow> (Inl (KeyError ''fileinfo''), p)
      | Some fi \<Rightarrow>
          (case filter (\<lambda>pkg. archive_name pkg = ''debian'') (get_default fi h []) of
             [] \<Rightarrow> (Inl (RebuilderException
                         ''No package with the right hash in Debian official''), p)
           | [e] \<Rightarrow> (Inr (fe_first_seen e), p\<lparr>first_seen := Some (fe_first_seen e), hash := Some h\<rparr>)
           | _ \<Rightarrow> (Inl (RebuilderException
                        ''More than one package with the same hash in Debian official''), p)))"
  by (simp add: record_first_seen_def from_main_def get_default_def
      split: option.splits list.splits)

lemma record_first_seen_returns:
  assumes "record_first_seen data h p = (Inr seen, p')"
  shows "p' = p\<lparr>first_seen := Some seen, hash := Some h\<rparr>
       \<and> (\<exists>fi e. fileinfo data = Some fi
              \<and> filter (\<lambda>pkg. archive_name pkg = ''debian'') (get_default fi h []) = [e]
              \<and> fe_first_seen e = seen)"
  using assms unfolding record_first_seen_cases
  by (auto split: option.splits list.splits)

lemma foo_session_answers:
  "foo_session (binfiles_url ''http://snapshot.debian.org'' foo_i386) = Some foo_binfiles"
  "foo_session (binfiles_url ''http://snapshot.debian.org'' foo_any) = Some foo_binfiles"
  by (simp_all add: foo_session_def binfiles_url_def foo_i386_def foo_any_def Package_def)

lemma foo_single: "result foo_binfiles = Some [foo_result]"
  by (simp add: foo_binfiles_def)

text \<open>
  C5: when the answer has exactly one result \<open>r\<close>, \<^verbatim>\<open>get_bin_date\<close> raises the
  explicit mismatch if the package came with a non-empty architecture other than
  \<open>r\<close>'s, and raises the implicit mismatch if it came with none and \<open>r\<close>'s is neither
  \<open>barch\<close> nor \<^verbatim>\<open>all\<close>. Otherwise it raises neither architecture message: the outcome
  is decided by the entries that \<^verbatim>\<open>fileinfo\<close> lists under \<open>r\<close>'s hash in the archive
  \<^verbatim>\<open>debian\<close> (no \<^verbatim>\<open>fileinfo\<close>, none, one, several). In every case the package is left with
  \<open>r\<close>'s architecture, and whenever the call returns normally the package has
  \<open>r\<close>'s architecture, \<open>r\<close>'s hash and the date returned, which is that of the one
  entry.
\<close>

theorem get_bin_date_single_result:
  assumes "get_response (binfiles_url snapshot_url package) = Some data"
    and "result data = Some [r]"
  shows "(truthy (architecture package) \<and> architecture package \<noteq> Some (r_architecture r) \<longrightarrow>
            fst (get_bin_date get_response snapshot_url barch package) =
              Inl (RebuilderException
                (explicit_msg (name package) (fmt (architecture package)) (r_architecture r))))
       \<and> (\<not> truthy (architecture package) \<and> barch \<noteq> r_architecture r
             \<and> ''all'' \<noteq> r_architecture r \<longrightarrow>
            fst (get_bin_date get_response snapshot_url barch package) =
              Inl (RebuilderException
                (implicit_msg (name package) barch (r_architecture r))))
       \<and> (\<not> (truthy (architecture package) \<and> architecture package \<noteq> Some (r_architecture r))
            \<and> \<not> (\<not> truthy (architecture package) \<and> barch \<noteq> r_architecture r
                    \<and> ''all'' \<noteq> r_architecture r) \<longrightarrow>
            get_bin_date get_response snapshot_url barch package =
              (case fileinfo data of
                 None \<Rightarrow>
                   (Inl (KeyError ''fileinfo''),
                    package\<lparr>architecture := Some (r_architecture r)\<rparr>)
               | Some fi \<Rightarrow>
                   (case filter (\<lambda>pkg. archive_name pkg = ''debian'')
                           (get_default fi (r_hash r) []) of
                      [] \<Rightarrow>
                        (Inl (RebuilderException
                                ''No package with the right hash in Debian official''),
                         package\<lparr>architecture := Some (r_architecture r)\<rparr>)
                    | [e] \<Rightarrow>
                        (Inr (fe_first_seen e),
                         package\<lparr>architecture := Some (r_architecture r),
                                 first_seen := Some (fe_first_seen e),
                                 hash := Some (r_hash r)\<rparr>)
                    | _ \<Rightarrow>
                        (Inl (RebuilderException
                                ''More than one package with the same hash in Debian official''),
                         package\<lparr>architecture := Some (r_architecture r)\<rparr>)))
            \<and> (\<forall>n a b. fst (get_bin_date get_response snapshot_url barch package)
                          \<noteq> Inl (RebuilderException (explicit_msg n a b))
                      \<and> fst (get_bin_date get_response snapshot_url barch package)
                          \<noteq> Inl (RebuilderException (implicit_msg n a b))))
       \<and> architecture (snd (get_bin_date get_response snapshot_url barch package))
            = Some (r_architecture r)
       \<and> (\<forall>seen package'.
            get_bin_date get_response snapshot_url barch package = (Inr seen, package') \<longrightarrow>
              package' = package\<lparr>architecture := Some (r_architecture r),
                                 first_seen := Some seen, hash := Some (r_hash r)\<rparr>
              \<and> (\<exists>fi e. fileinfo data = Some fi
                     \<and> filter (\<lambda>pkg. archive_name pkg = ''debian'')
                          (get_default fi (r_hash r) []) = [e]
                     \<and> fe_first_seen e = seen))"
proof -
  note eq = get_bin_date_single [of get_response, OF assms, of barch]
  let ?p = "package\<lparr>architecture := Some (r_architecture r)\<rparr>"
  have arch: "architecture (snd (record_first_seen data (r_hash r) ?p)) = Some (r_architecture r)"
    unfolding record_first_seen_cases by (simp split: option.splits list.splits)
  have ret: "p' = package\<lparr>architecture := Some (r_architecture r),
                           first_seen := Some seen, hash := Some (r_hash r)\<rparr>
       \<and> (\<exists>fi e. fileinfo data = Some fi
              \<and> filter (\<lambda>pkg. archive_name pkg = ''debian'') (get_default fi (r_hash r) []) = [e]
              \<and> fe_first_seen e = seen)"
    if "record_first_seen data (r_hash r) ?p = (Inr seen, p')" for seen p'
    using record_first_seen_returns [OF that] by simp
  have cases: "record_first_seen data (r_hash r) ?p =
      (case fileinfo data of
         None \<Rightarrow> (Inl (KeyError ''fileinfo''), ?p)
       | Some fi \<Rightarrow>
           (case filter (\<lambda>pkg. archive_name pkg = ''debian'') (get_default fi (r_hash r) []) of
              [] \<Rightarrow> (Inl (RebuilderException
                          ''No package with the right hash in Debian official''), ?p)
            | [e] \<Rightarrow> (Inr (fe_first_seen e),
                       package\<lparr>architecture := Some (r_architecture r),
                               first_seen := Some (fe_first_seen e),
                               hash := Some (r_hash r)\<rparr>)
            | _ \<Rightarrow> (Inl (RebuilderException
                         ''More than one package with the same hash in Debian official''), ?p)))"
    unfolding record_first_seen_cases by (simp split: option.splits list.splits)
  show ?thesis
  proof (intro conjI)
    show "truthy (architecture package) \<and> architecture package \<noteq> Some (r_architecture r) \<longrightarrow>
            fst (get_bin_date get_response snapshot_url barch package) =
              Inl (RebuilderException
                (explicit_msg (name package) (fmt (architecture package)) (r_architecture r)))"
      unfolding eq by simp
    show "\<not> truthy (architecture package) \<and> barch \<noteq> r_architecture r
             \<and> ''all'' \<noteq> r_architecture r \<longrightarrow>
            fst (get_bin_date get_response snapshot_url barch package) =
              Inl (RebuilderException
                (implicit_msg (name package) barch (r_architecture r)))"
      unfolding eq by simp
    show "\<not> (truthy (architecture package) \<and> architecture package \<noteq> Some (r_architecture r))
            \<and> \<not> (\<not> truthy (architecture package) \<and> barch \<noteq> r_architecture r
                    \<and> ''all'' \<noteq> r_architecture r) \<longrightarrow>
            get_bin_date get_response snapshot_url barch package =
              (case fileinfo data of
                 None \<Rightarrow>
                   (Inl (KeyError ''fileinfo''),
                    package\<lparr>architecture := Some (r_architecture r)\<rparr>)
               | Some fi \<Rightarrow>
                   (case filter (\<lambda>pkg. archive_name pkg = ''debian'')
                           (get_default fi (r_hash r) []) of
                      [] \<Rightarrow>
                        (Inl (RebuilderException
                                ''No package with the right hash in Debian official''),
                         package\<lparr>architecture := Some (r_architecture r)\<rparr>)
                    | [e] \<Rightarrow>
                        (Inr (fe_first_seen e),
                         package\<lparr>architecture := Some (r_architecture r),
                                 first_seen := Some (fe_first_seen e),
                                 hash := Some (r_hash r)\<rparr>)
                    | _ \<Rightarrow>
                        (Inl (RebuilderException
                                ''More than one package with the same hash in Debian official''),
                         package\<lparr>architecture := Some (r_architecture r)\<rparr>)))
            \<and> (\<forall>n a b. fst (get_bin_date get_response snapshot_url barch package)
                          \<noteq> Inl (RebuilderException (explicit_msg n a b))
                      \<and> fst (get_bin_date get_response snapshot_url barch package)
                          \<noteq> Inl (RebuilderException (implicit_msg n a b)))"
    proof (intro impI)
      assume "\<not> (truthy (architecture package) \<and> architecture package \<noteq> Some (r_architecture r))
            \<and> \<not> (\<not> truthy (architecture package) \<and> barch \<noteq> r_architecture r
                    \<and> ''all'' \<noteq> r_architecture r)"
      then have g: "get_bin_date get_response snapshot_url barch package
          = record_first_seen data (r_hash r) ?p"
        unfolding eq by (cases "truthy (architecture package)") auto
      show "get_bin_date get_response snapshot_url barch package =
              (case fileinfo data of
                 None \<Rightarrow>
                   (Inl (KeyError ''fileinfo''),
                    package\<lparr>architecture := Some (r_architecture r)\<rparr>)
               | Some fi \<Rightarrow>
                   (case filter (\<lambda>pkg. archive_name pkg = ''debian'')
                           (get_default fi (r_hash r) []) of
                      [] \<Rightarrow>
                        (Inl (RebuilderException
                                ''No package with the right hash in Debian official''),
                         package\<lparr>architecture := Some (r_architecture r)\<rparr>)
                    | [e] \<Rightarrow>
                        (Inr (fe_first_seen e),
                         package\<lparr>architecture := Some (r_architecture r),
                                 first_seen := Some (fe_first_seen e),
                                 hash := Some (r_hash r)\<rparr>)
                    | _ \<Rightarrow>
                        (Inl (RebuilderException
                                ''More than one package with the same hash in Debian official''),
                         package\<lparr>architecture := Some (r_architecture r)\<rparr>)))
            \<and> (\<forall>n a b. fst (get_bin_date get_response snapshot_url barch package)
                          \<noteq> Inl (RebuilderException (explicit_msg n a b))
                      \<and> fst (get_bin_date get_response snapshot_url barch package)
                          \<noteq> Inl (RebuilderException (implicit_msg n a b)))"
        unfolding g by (intro conjI allI cases record_first_seen_not_arch)
    qed
    show "architecture (snd (get_bin_date get_response snapshot_url barch package))
            = Some (r_architecture r)"
    proof (cases "truthy (architecture package) \<and> architecture package \<noteq> Some (r_architecture r)
        \<or> \<not> truthy (architecture package) \<and> barch \<noteq> r_architecture r
            \<and> ''all'' \<noteq> r_architecture r")
      case True
      then show ?thesis unfolding eq by auto
    next
      case False
      then have "get_bin_date get_response snapshot_url barch package
          = record_first_seen data (r_hash r) ?p"
        unfolding eq by (cases "truthy (architecture package)") auto
      then show ?thesis using arch by simp
    qed
    show "\<forall>seen package'.
            get_bin_date get_response snapshot_url barch package = (Inr seen, package') \<longrightarrow>
              package' = package\<lparr>architecture := Some (r_architecture r),
                                 first_seen := Some seen, hash := Some (r_hash r)\<rparr>
              \<and> (\<exists>fi e. fileinfo data = Some fi
                     \<and> filter (\<lambda>pkg. archive_name pkg = ''debian'')
                          (get_default fi (r_hash r) []) = [e]
                     \<and> fe_first_seen e = seen)"
    proof (intro allI impI)
      fix seen package'
      assume r: "get_bin_date get_response snapshot_url barch package = (Inr seen, package')"
      have "record_first_seen data (r_hash r) ?p = (Inr seen, package')"
      proof (cases "truthy (architecture package) \<and> architecture package \<noteq> Some (r_architecture r)
          \<or> \<not> truthy (architecture package) \<and> barch \<noteq> r_architecture r
              \<and> ''all'' \<noteq> r_architecture r")
        case True
        with r show ?thesis unfolding eq by auto
      next
        case False
        then have "get_bin_date get_response snapshot_url barch package
            = record_first_seen data (r_hash r) ?p"
          unfolding eq by (cases "truthy (architecture package)") auto
        with r show ?thesis by simp
      qed
      then show "package' = package\<lparr>architecture := Some (r_architecture r),
                                 first_seen := Some seen, hash := Some (r_hash r)\<rparr>
              \<and> (\<exists>fi e. fileinfo data = Some fi
                     \<and> filter (\<lambda>pkg. archive_name pkg = ''debian'')
                          (get_default fi (r_hash r) []) = [e]
                     \<and> fe_first_seen e = seen)"
        by (rule ret)
    qed
  qed
qed

theorem get_bin_date_single_result_witness:
  "fst (get_bin_date foo_session ''http://snapshot.debian.org'' ''amd64'' foo_i386)
     = Inl (RebuilderException
         ''Package foo was explicitly requested i386 but only amd64 was found'')
   \<and> fst (get_bin_date foo_session ''http://snapshot.debian.org'' ''armhf'' foo_any)
     = Inl (RebuilderException
         ''Package foo was implicitly requested armhf but only amd64 was found'')
   \<and> get_bin_date foo_session ''http://snapshot.debian.org'' ''amd64'' foo_any
     = (Inr ''20210504T120000Z'',
        \<lparr>name = ''foo'', version = ''1.0'', architecture = Some ''amd64'',
         first_seen = Some ''20210504T120000Z'', hash = Some ''aa11''\<rparr>)"
proof (intro conjI)
  show "fst (get_bin_date foo_session ''http://snapshot.debian.org'' ''amd64'' foo_i386)
     = Inl (RebuilderException
         ''Package foo was explicitly requested i386 but only amd64 was found'')"
    using get_bin_date_single_result
      [of foo_session, OF foo_session_answers(1) foo_single, of "''amd64''", THEN conjunct1]
    by (simp add: truthy_def explicit_msg_def fmt_def foo_i386_def Package_def foo_result_def)
  show "fst (get_bin_date foo_session ''http://snapshot.debian.org'' ''armhf'' foo_any)
     = Inl (RebuilderException
         ''Package foo was implicitly requested armhf but only amd64 was found'')"
    using get_bin_date_single_result
      [of foo_session, OF foo_session_answers(2) foo_single, of "''armhf''",
        THEN conjunct2, THEN conjunct1]
    by (simp add: truthy_def implicit_msg_def foo_any_def Package_def foo_result_def)
  show "get_bin_date foo_session ''http://snapshot.debian.org'' ''amd64'' foo_any
     = (Inr ''20210504T120000Z'',
        \<lparr>name = ''foo'', version = ''1.0'', architecture = Some ''amd64'',
         first_seen = Some ''20210504T120000Z'', hash = Some ''aa11''\<rparr>)"
    using get_bin_date_single_result
      [of foo_session, OF foo_session_answers(2) foo_single, of "''amd64''",
        THEN conjunct2, THEN conjunct2, THEN conjunct1]
    by (simp add: truthy_def foo_any_def Package_def foo_result_def foo_binfiles_def
        get_default_def)
qed

text \<open>
  C10: in the branch of exactly one result, whenever \<^verbatim>\<open>get_bin_date\<close> raises one of
  the two architecture mismatches, it leaves the package with its \<^verbatim>\<open>architecture\<close>
  already set to the one the snapshot reported (line 417 runs before the checks
  and nothing restores the value); the other fields are as before the call.
\<close>

theorem get_bin_date_arch_error_overwrites:
  assumes "get_response (binfiles_url snapshot_url package) = Some data"
    and "result data = Some [r]"
    and "fst (get_bin_date get_response snapshot_url barch package)
           = Inl (RebuilderException (explicit_msg n a b))
       \<or> fst (get_bin_date get_response snapshot_url barch package)
           = Inl (RebuilderException (implicit_msg n a b))"
  shows "snd (get_bin_date get_response snapshot_url barch package)
           = package\<lparr>architecture := Some (r_architecture r)\<rparr>"
proof -
  note eq = get_bin_date_single [of get_response, OF assms(1,2), of barch]
  show ?thesis
    using assms(3) unfolding eq
    by (auto simp: record_first_seen_not_arch split: if_splits)
qed

theorem get_bin_date_arch_error_overwrites_witness:
  "snd (get_bin_date foo_session ''http://snapshot.debian.org'' ''amd64'' foo_i386)
     = Package ''foo'' ''1.0'' (Some ''amd64'')
   \<and> architecture foo_i386 = Some ''i386''"
proof -
  have "fst (get_bin_date foo_session ''http://snapshot.debian.org'' ''amd64'' foo_i386)
      = Inl (RebuilderException (explicit_msg ''foo'' ''i386'' ''amd64''))"
    unfolding get_bin_date_single [of foo_session, OF foo_session_answers(1) foo_single]
    by (simp add: truthy_def foo_i386_def Package_def foo_result_def fmt_def)
  then show ?thesis
    using get_bin_date_arch_error_overwrites
      [of foo_session, OF foo_session_answers(1) foo_single,
        of "''amd64''" "''foo''" "''i386''" "''amd64''"]
    by (simp add: foo_i386_def Package_def foo_result_def)
qed

section \<open>Properties of the parser\<close>

lemma for_each_append:
  "for_each body s (xs @ ys) = seq (for_each body s xs) (\<lambda>s'. for_each body s' ys)"
  by (induction xs arbitrary: s) (simp_all add: seq_def split: sum.splits)

lemma one_file_there:
  "one_file paragraphs ''/srv/hello_2.10-2_amd64.buildinfo'' = Some paragraphs"
  by (simp add: one_file_def)

subsection \<open>The Debian suite\<close>

text \<open>The table answers for a version that is one of its keys, such as \<^verbatim>\<open>11\<close>.\<close>

lemma base_files_11_bullseye:
  "get_debian_suite (hello_scanned [''amd64'']\<lparr>build_depends := [Package ''base-files'' ''11'' None]\<rparr>)
     = Inr (Some ''bullseye'',
            hello_scanned [''amd64'']
              \<lparr>build_depends := [Package ''base-files'' ''11'' None],
               debian_suite := Some ''bullseye''\<rparr>)"
  by code_simp

text \<open>
  C2: for the build dependency \<^verbatim>\<open>base-files (= 11.1)\<close> the suite should be \<^verbatim>\<open>bullseye\<close>.
  The file of the first scenario is parsed, the dependency has the version \<^verbatim>\<open>11.1\<close>,
  and \<^verbatim>\<open>get_debian_suite\<close> raises: the table is keyed by the major release and the
  lookup uses the whole version string.
\<close>

theorem base_files_11_1_not_in_table:
  "seq (BuildInfo
          (one_file (hello_paragraphs ''amd64'' hello_sha256
                       ''Tue, 04 May 2021 12:00:00 +0000'' hello_env))
          ''x7k2'' ''/srv/hello_2.10-2_amd64.buildinfo'')
     get_debian_suite
   = Inl (BuildInfoException ''Cannot determine Debian version'')"
  by code_simp

subsection \<open>The build date\<close>

lemmas date_eval =
  spec_utc_stamp_def stamp_of_civil_def spec_utc_instant_def days_from_civil_def
  civil_from_days_def civil_of_era_def civil_of_year_def civil_of_month_def
  strftime_def two_digits_def str_nat.simps digit_def

lemma get_build_date_formats_fields:
  "build_date b = Some s \<Longrightarrow> parsedate s = Inr dt \<Longrightarrow>
   get_build_date parsedate b = Inr (strftime dt)"
  by (simp add: get_build_date_def)

lemma strftime_ignores_offset: "strftime (dt\<lparr>dt_utcoffset := off\<rparr>) = strftime dt"
  by (simp add: strftime_def)

lemma get_build_date_unparseable:
  "build_date b = Some s \<Longrightarrow> parsedate s = Inl (ValueError e) \<Longrightarrow>
   get_build_date parsedate b =
     Inl (RebuilderException
            (''Cannot parse '' @ [CHR 0x27] @ ''Build-Date'' @ [CHR 0x27] @ '': '' @ e))"
  by (simp add: get_build_date_def)

lemma hello_plus2_parsed:
  "BuildInfo
     (one_file (hello_paragraphs ''amd64'' hello_sha256
                  ''Tue, 04 May 2021 12:00:00 +0200'' hello_env))
     ''x7k2'' ''/srv/hello_2.10-2_amd64.buildinfo''
   = Inr ((hello_scanned [''amd64''])
            \<lparr>build_date := Some ''Tue, 04 May 2021 12:00:00 +0200'',
             build_path := Some ''/build/hello-x7k2'', host_arch := Some ''amd64'',
             build_archany := True\<rparr>)"
  by code_simp

text \<open>
  C6: for \<^verbatim>\<open>Build-Date: Tue, 04 May 2021 12:00:00 +0200\<close> the instant in UTC is
  10:00:00, written \<^verbatim>\<open>20210504T100000Z\<close>; \<^verbatim>\<open>get_build_date\<close> returns the
  fields of the date as written, followed by \<^verbatim>\<open>Z\<close>.
\<close>

theorem build_date_offset_not_normalised:
  "seq (BuildInfo
          (one_file (hello_paragraphs ''amd64'' hello_sha256
                       ''Tue, 04 May 2021 12:00:00 +0200'' hello_env))
          ''x7k2'' ''/srv/hello_2.10-2_amd64.buildinfo'')
     (get_build_date dateutil_values)
   = Inr ''20210504T120000Z''
   \<and> seq (dateutil_values ''Tue, 04 May 2021 12:00:00 +0200'') (\<lambda>dt. Inr (spec_utc_stamp dt))
   = Inr ''20210504T100000Z''"
proof -
  have parsed: "dateutil_values ''Tue, 04 May 2021 12:00:00 +0200''
      = Inr \<lparr>dt_year = 2021, dt_month = 5, dt_day = 4, dt_hour = 12, dt_minute = 0,
               dt_second = 0, dt_utcoffset = Some 7200\<rparr>"
    by (simp add: dateutil_values_def)
  have "get_build_date dateutil_values
          ((hello_scanned [''amd64''])
             \<lparr>build_date := Some ''Tue, 04 May 2021 12:00:00 +0200'',
              build_path := Some ''/build/hello-x7k2'', host_arch := Some ''amd64'',
              build_archany := True\<rparr>)
      = Inr ''20210504T120000Z''"
    by (simp add: get_build_date_def parsed date_eval)
  moreover have "spec_utc_stamp
          \<lparr>dt_year = 2021, dt_month = 5, dt_day = 4, dt_hour = 12, dt_minute = 0,
           dt_second = 0, dt_utcoffset = Some 7200\<rparr> = ''20210504T100000Z''"
    by (simp add: date_eval)
  ultimately show ?thesis
    unfolding hello_plus2_parsed parsed seq_Inr by simp
qed

subsection \<open>The architecture flags\<close>

lemma hello_scans:
  "scan (new_buildinfo ''/srv/hello_2.10-2_amd64.buildinfo'')
     (hello_paragraphs ''source all amd64'' hello_sha256
        ''Tue, 04 May 2021 12:00:00 +0000'' hello_env)
   = Inr (hello_scanned [''source'', ''all'', ''amd64''])"
  "scan (new_buildinfo ''/srv/hello_2.10-2_amd64.buildinfo'')
     (hello_paragraphs ''amd64 i386'' hello_sha256
        ''Tue, 04 May 2021 12:00:00 +0000'' hello_env)
   = Inr (hello_scanned [''amd64'', ''i386''])"
  by code_simp code_simp

text \<open>
  C8, as stated, fails: the flag \<^verbatim>\<open>build_source\<close> is the test that \<^verbatim>\<open>source\<close> occurs
  exactly once, so with \<^verbatim>\<open>Architecture: source source all amd64\<close>, whose words include
  \<^verbatim>\<open>source\<close>, \<^verbatim>\<open>all\<close> and one concrete architecture, the record has
  \<^verbatim>\<open>build_source = False\<close>.
\<close>

theorem architecture_source_twice_counterexample:
  "seq (BuildInfo
          (one_file (hello_paragraphs ''source source all amd64'' hello_sha256
                       ''Tue, 04 May 2021 12:00:00 +0000'' hello_env))
          ''x7k2'' ''/srv/hello_2.10-2_amd64.buildinfo'')
     (\<lambda>b. Inr (build_source b, build_archall b, build_archany b, bi_architecture b))
   = Inr (False, True, True, Some [''amd64''])"
  by code_simp

text \<open>
  C8, amended: let the scan of the file end normally with the words \<open>archs\<close> of
  \<^verbatim>\<open>Architecture\<close>. If more than one of them is neither \<^verbatim>\<open>source\<close> nor \<^verbatim>\<open>all\<close>, the
  constructor raises "More than one architecture in Architecture field". If
  \<^verbatim>\<open>source\<close> occurs exactly once, \<^verbatim>\<open>all\<close> exactly once, exactly one word \<open>a\<close> is
  neither, and \<^verbatim>\<open>Build-Architecture\<close> is given, the constructor returns a record with
  \<^verbatim>\<open>build_source\<close>, \<^verbatim>\<open>build_archall\<close> and \<^verbatim>\<open>build_archany\<close> true and \<^verbatim>\<open>architecture\<close>
  equal to \<open>[a]\<close>.
\<close>

theorem architecture_flags:
  assumes "files path = Some paragraphs"
    and "scan (new_buildinfo path) paragraphs = Inr s"
    and "bi_architecture s = Some archs"
  shows "(length (filter (\<lambda>arch. arch \<noteq> ''source'' \<and> arch \<noteq> ''all'') archs) > 1 \<longrightarrow>
            BuildInfo files candidate path =
              Inl (BuildInfoException ''More than one architecture in Architecture field''))
       \<and> (length (filter (\<lambda>arch. arch = ''source'') archs) = 1
            \<and> length (filter (\<lambda>arch. arch = ''all'') archs) = 1
            \<and> filter (\<lambda>arch. arch \<noteq> ''source'' \<and> arch \<noteq> ''all'') archs = [a]
            \<and> truthy (build_arch s) \<longrightarrow>
            (\<exists>b. BuildInfo files candidate path = Inr b
                 \<and> build_source b \<and> build_archall b \<and> build_archany b
                 \<and> bi_architecture b = Some [a]))"
  using assms by (simp add: BuildInfo_def finish_def Let_def)

theorem architecture_flags_witness:
  "seq (BuildInfo
          (one_file (hello_paragraphs ''source all amd64'' hello_sha256
                       ''Tue, 04 May 2021 12:00:00 +0000'' hello_env))
          ''x7k2'' ''/srv/hello_2.10-2_amd64.buildinfo'')
     (\<lambda>b. Inr (build_source b, build_archall b, build_archany b, bi_architecture b))
   = Inr (True, True, True, Some [''amd64''])
   \<and> BuildInfo
       (one_file (hello_paragraphs ''amd64 i386'' hello_sha256
                    ''Tue, 04 May 2021 12:00:00 +0000'' hello_env))
       ''x7k2'' ''/srv/hello_2.10-2_amd64.buildinfo''
   = Inl (BuildInfoException ''More than one architecture in Architecture field'')"
proof
  have arch: "bi_architecture (hello_scanned [''source'', ''all'', ''amd64''])
      = Some [''source'', ''all'', ''amd64'']"
    by (simp add: hello_scanned_def)
  have "truthy (build_arch (hello_scanned [''source'', ''all'', ''amd64'']))"
    by (simp add: hello_scanned_def truthy_def)
  with architecture_flags [of "one_file (hello_paragraphs ''source all amd64'' hello_sha256
      ''Tue, 04 May 2021 12:00:00 +0000'' hello_env)", OF one_file_there hello_scans(1) arch,
      of "''x7k2''" "''amd64''"]
  obtain b where
    "BuildInfo
       (one_file (hello_paragraphs ''source all amd64'' hello_sha256
                    ''Tue, 04 May 2021 12:00:00 +0000'' hello_env))
       ''x7k2'' ''/srv/hello_2.10-2_amd64.buildinfo'' = Inr b"
    and "build_source b" "build_archall b" "build_archany b"
    and "bi_architecture b = Some [''amd64'']"
    by auto
  then show "seq (BuildInfo
          (one_file (hello_paragraphs ''source all amd64'' hello_sha256
                       ''Tue, 04 May 2021 12:00:00 +0000'' hello_env))
          ''x7k2'' ''/srv/hello_2.10-2_amd64.buildinfo'')
     (\<lambda>b. Inr (build_source b, build_archall b, build_archany b, bi_architecture b))
   = Inr (True, True, True, Some [''amd64''])"
    by simp
next
  have arch: "bi_architecture (hello_scanned [''amd64'', ''i386'']) = Some [''amd64'', ''i386'']"
    by (simp add: hello_scanned_def)
  from architecture_flags [of "one_file (hello_paragraphs ''amd64 i386'' hello_sha256
      ''Tue, 04 May 2021 12:00:00 +0000'' hello_env)", OF one_file_there hello_scans(2) arch,
      of "''x7k2''"]
  show "BuildInfo
       (one_file (hello_paragraphs ''amd64 i386'' hello_sha256
                    ''Tue, 04 May 2021 12:00:00 +0000'' hello_env))
       ''x7k2'' ''/srv/hello_2.10-2_amd64.buildinfo''
   = Inl (BuildInfoException ''More than one architecture in Architecture field'')"
    by simp
qed

subsection \<open>The checksum fields\<close>

lemma checksums_line_returns:
  "3 \<le> length (split_ws line) \<Longrightarrow> \<exists>cs'. checksums_line alg cs line = Inr cs'"
  by (simp add: checksums_line_def Let_def)

lemma checksums_lines_return:
  "list_all (\<lambda>l. 3 \<le> length (split_ws l)) lines \<Longrightarrow>
   \<exists>cs'. for_each (checksums_line alg) cs lines = Inr cs'"
proof (induction lines arbitrary: cs)
  case Nil
  then show ?case by simp
next
  case (Cons l ls)
  then obtain cs1 where "checksums_line alg cs l = Inr cs1"
    using checksums_line_returns [of l alg cs] by auto
  with Cons show ?case by simp
qed

text \<open>
  Every entry that the parser writes to \<^verbatim>\<open>checksums\<close> has at least one property: the
  checksums of a record that the constructor returns have no empty entry.
\<close>

lemma for_each_invariant:
  assumes "\<And>s x s'. P s \<Longrightarrow> body s x = Inr s' \<Longrightarrow> P s'"
    and "P s" and "for_each body s xs = Inr s'"
  shows "P s'"
  using assms(2,3)
proof (induction xs arbitrary: s)
  case Nil
  then show ?case by simp
next
  case (Cons x xs)
  from Cons.prems(2) obtain s1 where "body s x = Inr s1" and "for_each body s1 xs = Inr s'"
    by (cases "body s x") simp_all
  with Cons.IH [of s1] assms(1) [OF Cons.prems(1)] show ?case by blast
qed

lemma checksums_line_nonempty:
  assumes "entries_nonempty cs" and "checksums_line alg cs line = Inr cs'"
  shows "entries_nonempty cs'"
proof -
  let ?w = "split_ws line"
  from assms(2) have len: "\<not> length ?w < 3"
    by (auto simp: checksums_line_def Let_def split: if_splits)
  define cs1 where
    "cs1 = (if get_default cs (?w ! 2) [] = [] then AList.update (?w ! 2) [] cs else cs)"
  define e where
    "e = AList.update alg (?w ! 0) (AList.update ''size'' (?w ! 1) (get_default cs1 (?w ! 2) []))"
  from assms(2) len have "cs' = AList.update (?w ! 2) e cs1"
    by (simp add: checksums_line_def Let_def cs1_def e_def)
  then have "map_of cs' = (map_of cs)(?w ! 2 \<mapsto> e)"
    by (simp add: cs1_def AList.update_conv')
  moreover have "e \<noteq> []"
    by (simp add: e_def)
  ultimately show ?thesis
    using assms(1) by (auto simp: entries_nonempty_def split: if_splits)
qed

lemma handle_item_nonempty:
  assumes "entries_nonempty (checksums b)" and "handle_item b item = Inr b'"
  shows "entries_nonempty (checksums b')"
proof (cases "startswith (fst item) ''Checksums-''")
  case True
  with assms(2) obtain cs where
    cs: "for_each (checksums_line (lower (remove_all ''Checksums-'' (fst item))))
           (checksums b) (folded_lines (snd item)) = Inr cs"
    and b': "checksums b' = cs"
    by (auto simp: handle_item_def Let_def seq_def split: sum.splits if_splits)
  from for_each_invariant [of entries_nonempty, OF checksums_line_nonempty assms(1) cs]
  show ?thesis using b' by simp
next
  case False
  with assms(2) have "checksums b' = checksums b"
    by (auto simp: handle_item_def Let_def seq_def split: sum.splits if_splits)
  with assms(1) show ?thesis by simp
qed

lemma parsed_entries_nonempty:
  assumes "BuildInfo files candidate path = Inr b"
  shows "entries_nonempty (checksums b)"
proof -
  from assms obtain paragraphs s where
    scan: "scan (new_buildinfo path) paragraphs = Inr s" and fin: "finish candidate s = Inr b"
    by (auto simp: BuildInfo_def seq_def split: option.splits sum.splits)
  have start: "entries_nonempty (checksums (new_buildinfo path))"
    by (simp add: new_buildinfo_def entries_nonempty_def)
  have para: "entries_nonempty (checksums s')"
    if "entries_nonempty (checksums s)" and "for_each handle_item s xs = Inr s'" for s xs s'
    using for_each_invariant [where P = "\<lambda>b. entries_nonempty (checksums b)"
        and body = handle_item, OF handle_item_nonempty that] .
  have "entries_nonempty (checksums s)"
    using for_each_invariant [where P = "\<lambda>b. entries_nonempty (checksums b)"
        and body = "for_each handle_item", OF para start scan [unfolded scan_def]] .
  moreover have "checksums b = checksums s"
    using fin by (auto simp: finish_def Let_def split: option.splits if_splits)
  ultimately show ?thesis by simp
qed

text \<open>
  C3, as stated, fails: a file whose \<^verbatim>\<open>Checksums-Md5\<close> gives the size 100 and whose
  \<^verbatim>\<open>Checksums-Sha256\<close> gives the size 56132 for the same name is parsed without an
  error, and the record keeps the second size.
\<close>

theorem checksums_two_sizes_counterexample:
  "seq (BuildInfo
          (one_file (hello_paragraphs ''amd64'' hello_two_sizes
                       ''Tue, 04 May 2021 12:00:00 +0000'' hello_env))
          ''x7k2'' ''/srv/hello_2.10-2_amd64.buildinfo'')
     (\<lambda>b. Inr (checksums b))
   = Inr [(''hello_2.10-2_amd64.deb'',
           [(''size'', ''56132''), (''md5'', ''aa11''), (''sha256'', ''9d3f'')])]"
  by code_simp

text \<open>
  One line \<^verbatim>\<open>hash size file\<close> of a field replaces the entry of \<open>file\<close> by the entry that
  was there, with \<^verbatim>\<open>size\<close> and then the algorithm's key written over it; the entries of
  the other files stay.
\<close>

lemma checksums_line_map:
  assumes "3 \<le> length (split_ws line)"
  shows "\<exists>cs' e. checksums_line alg cs line = Inr cs'
           \<and> map_of cs' = (map_of cs)(split_ws line ! 2 \<mapsto> e)
           \<and> map_of e = (map_of (get_default cs (split_ws line ! 2) []))
                           (''size'' \<mapsto> split_ws line ! 1, alg \<mapsto> split_ws line ! 0)"
proof -
  let ?w = "split_ws line"
  define cs1 where
    "cs1 = (if get_default cs (?w ! 2) [] = [] then AList.update (?w ! 2) [] cs else cs)"
  define e where
    "e = AList.update alg (?w ! 0) (AList.update ''size'' (?w ! 1) (get_default cs1 (?w ! 2) []))"
  have same: "get_default cs1 (?w ! 2) [] = get_default cs (?w ! 2) []"
    by (simp add: cs1_def get_default_def AList.update_conv')
  from assms have "checksums_line alg cs line = Inr (AList.update (?w ! 2) e cs1)"
    by (simp add: checksums_line_def Let_def cs1_def e_def)
  moreover have "map_of (AList.update (?w ! 2) e cs1) = (map_of cs)(?w ! 2 \<mapsto> e)"
    by (simp add: cs1_def AList.update_conv')
  moreover have "map_of e = (map_of (get_default cs (?w ! 2) []))
                              (''size'' \<mapsto> ?w ! 1, alg \<mapsto> ?w ! 0)"
    by (simp add: e_def same AList.update_conv')
  ultimately show ?thesis by blast
qed

text \<open>
  C3, amended: the parser merges the \<^verbatim>\<open>Checksums-<alg>\<close> fields by file name and
  compares nothing. Whatever the entries \<open>cs\<close> read so far, a field all of whose lines
  have at least three words is read without an error. Afterwards a file that no
  line of the field names has the entry it had, or none as before; a file \<open>f\<close> that
  the field names has the entry it had (the empty one if it had none) with the
  property \<^verbatim>\<open>size\<close> set to the second word, and then the property of the algorithm's
  key set to the first word, of the last line that names \<open>f\<close>, every other property
  kept. So the size of the field read last replaces an earlier one, equal or not,
  and for the field \<^verbatim>\<open>Checksums-Size\<close>, whose key is \<^verbatim>\<open>size\<close> itself, the property holds
  the first word.
\<close>

theorem checksums_field_merged:
  assumes "list_all (\<lambda>l. 3 \<le> length (split_ws l)) lines"
  shows "\<exists>cs'. for_each (checksums_line alg) cs lines = Inr cs'
           \<and> (\<forall>f. if filter (\<lambda>l. split_ws l ! 2 = f) lines = []
                   then map_of cs' f = map_of cs f
                   else (\<exists>e. map_of cs' f = Some e
                          \<and> map_of e = (map_of (get_default cs f []))
                              (''size'' \<mapsto> split_ws (last (filter (\<lambda>l. split_ws l ! 2 = f) lines)) ! 1,
                               alg \<mapsto> split_ws (last (filter (\<lambda>l. split_ws l ! 2 = f) lines)) ! 0)))"
  using assms
proof (induction lines rule: rev_induct)
  case Nil
  then show ?case by simp
next
  case (snoc l ls)
  let ?named = "\<lambda>f ls. filter (\<lambda>l. split_ws l ! 2 = f) ls"
  from snoc obtain cs1 where
    cs1: "for_each (checksums_line alg) cs ls = Inr cs1"
    and IH: "\<And>f. if ?named f ls = []
               then map_of cs1 f = map_of cs f
               else (\<exists>e. map_of cs1 f = Some e
                      \<and> map_of e = (map_of (get_default cs f []))
                          (''size'' \<mapsto> split_ws (last (?named f ls)) ! 1,
                           alg \<mapsto> split_ws (last (?named f ls)) ! 0))"
    by auto
  from snoc.prems have "3 \<le> length (split_ws l)" by simp
  from checksums_line_map [OF this, of alg cs1] obtain cs' e where
    line: "checksums_line alg cs1 l = Inr cs'"
    and cs': "map_of cs' = (map_of cs1)(split_ws l ! 2 \<mapsto> e)"
    and e: "map_of e = (map_of (get_default cs1 (split_ws l ! 2) []))
                         (''size'' \<mapsto> split_ws l ! 1, alg \<mapsto> split_ws l ! 0)"
    by blast
  have run: "for_each (checksums_line alg) cs (ls @ [l]) = Inr cs'"
    by (simp add: for_each_append cs1 line)
  have "if ?named f (ls @ [l]) = []
        then map_of cs' f = map_of cs f
        else (\<exists>e. map_of cs' f = Some e
               \<and> map_of e = (map_of (get_default cs f []))
                   (''size'' \<mapsto> split_ws (last (?named f (ls @ [l]))) ! 1,
                    alg \<mapsto> split_ws (last (?named f (ls @ [l]))) ! 0))" for f
  proof (cases "split_ws l ! 2 = f")
    case False
    then have eq: "?named f (ls @ [l]) = ?named f ls" by simp
    from False have "map_of cs' f = map_of cs1 f" by (simp add: cs')
    with IH [of f] show ?thesis unfolding eq by (simp split: if_splits)
  next
    case True
    then have named: "?named f (ls @ [l]) \<noteq> []" "last (?named f (ls @ [l])) = l" by simp_all
    have old: "(map_of (get_default cs1 f []))(''size'' \<mapsto> s, alg \<mapsto> h)
        = (map_of (get_default cs f []))(''size'' \<mapsto> s, alg \<mapsto> h)" for s h
    proof (cases "?named f ls = []")
      case True
      with IH [of f] have "map_of cs1 f = map_of cs f" by simp
      then show ?thesis by (simp add: get_default_def)
    next
      case False
      with IH [of f] obtain e1 where "map_of cs1 f = Some e1"
        and "map_of e1 = (map_of (get_default cs f []))
                          (''size'' \<mapsto> split_ws (last (?named f ls)) ! 1,
                           alg \<mapsto> split_ws (last (?named f ls)) ! 0)"
        by auto
      then show ?thesis by (auto simp: get_default_def)
    qed
    have "map_of cs' f = Some e" using True by (simp add: cs')
    moreover have "map_of e = (map_of (get_default cs f []))
        (''size'' \<mapsto> split_ws l ! 1, alg \<mapsto> split_ws l ! 0)"
      using e old True by simp
    ultimately show ?thesis using named by (simp del: filter_append)
  qed
  with run show ?case by blast
qed


theorem checksums_field_merged_witness:
  "\<exists>cs' e.
     for_each (checksums_line ''sha256'') hello_md5_read
       ['' 9d3f 56132 hello_2.10-2_amd64.deb''] = Inr cs'
     \<and> map_of cs' ''hello_2.10-2_amd64.deb'' = Some e
     \<and> map_of e ''size'' = Some ''56132'' \<and> map_of e ''sha256'' = Some ''9d3f''
     \<and> map_of e ''md5'' = Some ''aa11''
     \<and> map_of cs' ''hello-doc_2.10-2_all.deb'' = Some [(''size'', ''800''), (''md5'', ''bb22'')]"
proof -
  let ?l = "'' 9d3f 56132 hello_2.10-2_amd64.deb''"
  have w: "split_ws ?l = [''9d3f'', ''56132'', ''hello_2.10-2_amd64.deb'']"
    by code_simp
  have "list_all (\<lambda>l. 3 \<le> length (split_ws l)) [?l]"
    by (simp add: w)
  from checksums_field_merged [OF this, of "''sha256''" hello_md5_read] obtain cs' where
    run: "for_each (checksums_line ''sha256'') hello_md5_read [?l] = Inr cs'"
    and each: "\<And>f. if filter (\<lambda>l. split_ws l ! 2 = f) [?l] = []
                 then map_of cs' f = map_of hello_md5_read f
                 else (\<exists>e. map_of cs' f = Some e
                        \<and> map_of e = (map_of (get_default hello_md5_read f []))
                            (''size'' \<mapsto> split_ws (last (filter (\<lambda>l. split_ws l ! 2 = f) [?l])) ! 1,
                             ''sha256'' \<mapsto> split_ws (last (filter (\<lambda>l. split_ws l ! 2 = f) [?l])) ! 0))"
    by blast
  from each [of "''hello_2.10-2_amd64.deb''"] obtain e where
    "map_of cs' ''hello_2.10-2_amd64.deb'' = Some e"
    and "map_of e = (map_of [(''size'', ''100''), (''md5'', ''aa11'')])
                      (''size'' \<mapsto> ''56132'', ''sha256'' \<mapsto> ''9d3f'')"
    by (auto simp: w get_default_def hello_md5_read_def)
  moreover from each [of "''hello-doc_2.10-2_all.deb''"]
  have "map_of cs' ''hello-doc_2.10-2_all.deb'' = Some [(''size'', ''800''), (''md5'', ''bb22'')]"
    by (simp add: w hello_md5_read_def)
  ultimately show ?thesis
    using run by simp
qed

text \<open>
  The other lines: a line of fewer than three words ends the field, and the
  constructor, with \<^verbatim>\<open>IndexError\<close>. And the field is read in this way for every field
  name that starts with \<^verbatim>\<open>Checksums-\<close>, the algorithm's key being the rest of the name
  in lower case.
\<close>

lemma checksums_short_line_IndexError:
  assumes "\<not> list_all (\<lambda>l. 3 \<le> length (split_ws l)) lines"
  shows "for_each (checksums_line alg) cs lines = Inl IndexError"
  using assms
proof (induction lines arbitrary: cs)
  case Nil
  then show ?case by simp
next
  case (Cons l ls)
  show ?case
  proof (cases "3 \<le> length (split_ws l)")
    case True
    with checksums_line_map [of l alg cs] obtain cs1 where "checksums_line alg cs l = Inr cs1"
      by blast
    with Cons True show ?thesis by simp
  next
    case False
    then show ?thesis by (simp add: checksums_line_def Let_def)
  qed
qed

lemma checksums_item:
  assumes "startswith field ''Checksums-''"
  shows "handle_item b (field, v)
         = seq (for_each (checksums_line (lower (remove_all ''Checksums-'' field)))
                  (checksums b) (folded_lines v))
             (\<lambda>cs. Inr (b\<lparr>checksums := cs\<rparr>))"
proof -
  from assms have other:
    "field \<noteq> ''Source''" "field \<noteq> ''Architecture''" "field \<noteq> ''Binary''"
    "field \<noteq> ''Version''" "field \<noteq> ''Build-Path''" "field \<noteq> ''Build-Architecture''"
    "field \<noteq> ''Build-Date''" "field \<noteq> ''Host-Architecture''"
    "field \<noteq> ''Installed-Build-Depends''" "field \<noteq> ''Environment''"
    by (auto simp: startswith_def)
  show ?thesis
    using assms other
    by (cases "for_each (checksums_line (lower (remove_all ''Checksums-'' field)))
                 (checksums b) (folded_lines v)")
       (simp_all add: handle_item_def)
qed

subsection \<open>The environment\<close>

lemma star_dot_none:
  "(\<And>p t. s = p @ t \<Longrightarrow> k t = None) \<Longrightarrow> star_dot k acc s = None"
proof (induction s arbitrary: acc)
  case Nil
  then show ?case by simp
next
  case (Cons c cs)
  have here: "k (c # cs) = None"
    using Cons.prems [of "[]" "c # cs"] by simp
  have "star_dot k (c # acc) cs = None"
  proof (rule Cons.IH)
    fix p t assume "cs = p @ t"
    then show "k t = None" using Cons.prems [of "c # p" t] by simp
  qed
  with here show ?case by auto
qed

text \<open>
  The group of \<^verbatim>\<open>(.*)\<close> is \<open>p\<close> when the rest of the pattern matches after \<open>p\<close> and
  at no later place.
\<close>

lemma star_dot_longest:
  assumes "newline \<notin> set p" and "k t = Some r"
    and "\<And>q t'. t = q @ t' \<Longrightarrow> q \<noteq> [] \<Longrightarrow> k t' = None"
  shows "star_dot k acc (p @ t) = Some (rev acc @ p, r)"
  using assms(1)
proof (induction p arbitrary: acc)
  case Nil
  show ?case
  proof (cases t)
    case Nil
    with assms(2) show ?thesis by simp
  next
    case (Cons c cs)
    have "star_dot k (c # acc) cs = None"
    proof (rule star_dot_none)
      fix p' t' assume "cs = p' @ t'"
      then show "k t' = None" using assms(3) [of "c # p'" t'] Cons by simp
    qed
    with assms(2) Cons show ?thesis by auto
  qed
next
  case (Cons c p)
  then show ?case by auto
qed

lemma lit_startswith:
  assumes "lit p k t \<noteq> None"
  shows "\<exists>u. t = p @ u"
proof -
  from assms have "take (length p) t = p"
    by (simp add: lit_def startswith_def split: if_splits)
  then have "t = p @ drop (length p) t"
    by (metis append_take_drop_id)
  then show ?thesis ..
qed

lemma closing_quote:
  assumes "newline \<notin> set v" and "dquote \<notin> set rest"
  shows "star_dot (lit [dquote] matched) [] (v @ dquote # rest) = Some (v, ())"
proof -
  have "star_dot (lit [dquote] matched) [] (v @ dquote # rest) = Some (rev [] @ v, ())"
  proof (rule star_dot_longest [OF assms(1)])
    show "lit [dquote] matched (dquote # rest) = Some ()"
      by (simp add: lit_def startswith_def matched_def)
  next
    fix q t' assume "dquote # rest = q @ t'" and "q \<noteq> []"
    then have "set t' \<subseteq> set rest" by (cases q) auto
    with assms(2) have "dquote \<notin> set t'" by blast
    then show "lit [dquote] matched t' = None"
      by (cases t') (auto simp: lit_def startswith_def)
  qed
  then show ?thesis by simp
qed

lemma closing_quote_needed:
  assumes "star_dot (lit [dquote] matched) acc u \<noteq> None"
  shows "dquote \<in> set u"
proof (rule ccontr)
  assume no: "dquote \<notin> set u"
  have "star_dot (lit [dquote] matched) acc u = None"
  proof (rule star_dot_none)
    fix p t assume "u = p @ t"
    with no have "dquote \<notin> set t" by simp
    then show "lit [dquote] matched t = None"
      by (cases t) (auto simp: lit_def startswith_def)
  qed
  with assms show False by simp
qed

lemma match_key_value:
  assumes "newline \<notin> set k" and "newline \<notin> set v"
    and "\<And>q u. v \<noteq> q @ [CHR ''='', dquote] @ u" and "dquote \<notin> set rest"
  shows "star_dot (lit [CHR ''='', dquote] (star_dot (lit [dquote] matched) [])) []
           (k @ [CHR ''='', dquote] @ v @ dquote # rest) = Some (k, v, ())"
proof -
  let ?K = "lit [CHR ''='', dquote] (star_dot (lit [dquote] matched) [])"
  have "star_dot ?K [] (k @ ([CHR ''='', dquote] @ v @ dquote # rest)) = Some (rev [] @ k, v, ())"
  proof (rule star_dot_longest [OF assms(1)])
    show "?K ([CHR ''='', dquote] @ v @ dquote # rest) = Some (v, ())"
      using closing_quote [OF assms(2,4)] by (simp add: lit_def startswith_def)
  next
    fix q t' assume split: "[CHR ''='', dquote] @ v @ dquote # rest = q @ t'" and "q \<noteq> []"
    show "?K t' = None"
    proof (rule ccontr)
      assume nonempty: "?K t' \<noteq> None"
      from lit_startswith [OF nonempty] obtain u where u: "t' = [CHR ''='', dquote] @ u" ..
      with nonempty have "star_dot (lit [dquote] matched) [] u \<noteq> None"
        by (simp add: lit_def startswith_def)
      then have quote: "dquote \<in> set u" by (rule closing_quote_needed)
      from \<open>q \<noteq> []\<close> obtain c q' where q: "q = c # q'" by (cases q) auto
      with split u have eq: "dquote # v @ dquote # rest = q' @ CHR ''='' # dquote # u" by simp
      have "\<exists>q''. q' = dquote # q''"
      proof (cases q')
        case Nil
        with eq show ?thesis by (simp add: dquote_def)
      next
        case (Cons d ds)
        with eq have "d = dquote" by simp
        with Cons show ?thesis by simp
      qed
      then obtain q'' where q'': "q' = dquote # q''" ..
      from eq have "v @ dquote # rest = q'' @ CHR ''='' # dquote # u"
        unfolding q'' by simp
      then consider us where "v = q'' @ us" and "us @ dquote # rest = CHR ''='' # dquote # u"
        | us where "v @ us = q''" and "dquote # rest = us @ CHR ''='' # dquote # u"
        by (auto simp: append_eq_append_conv2)
      then show False
      proof cases
        case 1
        show False
        proof (cases us)
          case Nil
          with 1(2) show False by (simp add: dquote_def)
        next
          case (Cons x xs)
          note outer = Cons
          show False
          proof (cases xs)
            case Nil
            with outer 1(2) have "u = rest" by simp
            with quote assms(4) show False by simp
          next
            case (Cons y ys)
            with outer 1(2) have "us = [CHR ''='', dquote] @ ys" by simp
            with 1(1) assms(3) [of q'' ys] show False by simp
          qed
        qed
      next
        case 2
        show False
        proof (cases us)
          case Nil
          with 2(2) show False by (simp add: dquote_def)
        next
          case (Cons x xs)
          with 2(2) have "rest = xs @ CHR ''='' # dquote # u" by simp
          with assms(4) show False by simp
        qed
      qed
    qed
  qed
  then show ?thesis by simp
qed

lemma match_environment_form:
  assumes "c \<noteq> CHR ''=''" and "newline \<notin> set k" and "newline \<notin> set v"
    and "\<And>q u. v \<noteq> q @ [CHR ''='', dquote] @ u" and "dquote \<notin> set rest"
  shows "match_environment (c # k @ [CHR ''='', dquote] @ v @ dquote # rest) = Some (k, v)"
  using assms(1) match_key_value [OF assms(2,3,4,5)] by (simp add: match_environment_def)

lemma match_environment_no_quote:
  assumes "dquote \<notin> set line"
  shows "match_environment line = None"
proof (cases line)
  case Nil
  then show ?thesis by (simp add: match_environment_def)
next
  case (Cons c rest)
  have "star_dot (lit [CHR ''='', dquote] (star_dot (lit [dquote] matched) [])) [] rest = None"
  proof (rule star_dot_none)
    fix p t assume "rest = p @ t"
    with assms Cons have "dquote \<notin> set t" by simp
    show "lit [CHR ''='', dquote] (star_dot (lit [dquote] matched) []) t = None"
    proof (rule ccontr)
      assume "lit [CHR ''='', dquote] (star_dot (lit [dquote] matched) []) t \<noteq> None"
      from lit_startswith [OF this] obtain u where "t = [CHR ''='', dquote] @ u" ..
      with \<open>dquote \<notin> set t\<close> show False by simp
    qed
  qed
  with Cons show ?thesis by (simp add: match_environment_def)
qed

text \<open>
  The first character of the line is matched outside the groups: on a line that
  starts with the key itself, the key loses its first letter.
\<close>

lemma environment_line_without_blank:
  "environment_line [] (''LANG='' @ dquote # ''C.UTF-8'' @ [dquote]) = [(''ANG'', ''C.UTF-8'')]"
  by code_simp

text \<open>
  What the expression matches: one character other than \<^verbatim>\<open>=\<close> (the blank of the
  folded line), a key, \<^verbatim>\<open>="\<close>, a value in which \<^verbatim>\<open>="\<close> does not occur, a quote, and a
  rest without a quote. The value, stripped of outer white space, is stored under
  the key, stripped likewise; the value may hold quotes of its own, and the rest
  is ignored.
\<close>

lemma environment_line_stores:
  assumes "c \<noteq> CHR ''=''" and "newline \<notin> set k" and "newline \<notin> set v"
    and "\<And>q u. v \<noteq> q @ [CHR ''='', dquote] @ u" and "dquote \<notin> set rest"
  shows "environment_line e (c # k @ [CHR ''='', dquote] @ v @ dquote # rest)
           = AList.update (strip k) (strip v) e"
  unfolding environment_line_def match_environment_form [OF assms] by simp

lemma environment_line_quote_in_value:
  "environment_line [] ('' K='' @ dquote # ''a'' @ dquote # ''b'' @ [dquote])
     = [(''K'', ''a'' @ dquote # ''b'')]"
  by code_simp

text \<open>
  What it does not match is skipped: the \<^verbatim>\<open>Environment\<close> field raises nothing, whatever
  its value, while a line of \<^verbatim>\<open>Installed-Build-Depends\<close> that its expression does not
  match ends the constructor with \<^verbatim>\<open>BuildInfoException\<close> (lines 180 to 182).
\<close>

lemma environment_line_unmatched:
  "match_environment line = None \<Longrightarrow> environment_line e line = e"
  by (simp add: environment_line_def)

lemma environment_item_returns:
  "handle_item b (''Environment'', v)
     = Inr (b\<lparr>env := foldl environment_line (env b) (folded_lines v)\<rparr>)"
  by (simp add: handle_item_def startswith_def)

lemma build_depends_line_unmatched:
  "parsePkgBuildDepend pkg = None \<Longrightarrow>
   build_depends_line deps pkg = Inl (BuildInfoException (''Cannot parse package: '' @ pkg))"
  by (simp add: build_depends_line_def)

text \<open>
  C7: the claim has a malformed line of \<^verbatim>\<open>Environment\<close> raise the error of an invalid
  field. The second line of this \<^verbatim>\<open>Environment\<close>, \<^verbatim>\<open>LANG=C.UTF-8\<close> without quotes, is
  not of the form \<^verbatim>\<open>KEY="VALUE"\<close> and the expression does not match it; the constructor
  returns a record all the same, and the record's environment has no entry for
  \<^verbatim>\<open>LANG\<close>. A line of \<^verbatim>\<open>Installed-Build-Depends\<close> without a version, in the same loop,
  raises \<^verbatim>\<open>BuildInfoException\<close>.
\<close>

theorem environment_unquoted_line_skipped:
  "match_environment '' LANG=C.UTF-8'' = None
   \<and> seq (BuildInfo
            (one_file (hello_paragraphs ''amd64'' hello_sha256
                         ''Tue, 04 May 2021 12:00:00 +0000'' hello_env_unquoted))
            ''x7k2'' ''/srv/hello_2.10-2_amd64.buildinfo'')
       (\<lambda>b. Inr (env b))
     = Inr [(''DEB_BUILD_OPTIONS'', ''parallel=4'')]
   \<and> build_depends_line [] '' libc6'' = Inl (BuildInfoException ''Cannot parse package:  libc6'')"
  by code_simp

section \<open>Properties of the resolver\<close>

lemma buckets_simps [simp]:
  "buckets key [] d = d"
  "buckets key (x # xs) d = buckets key xs (setdefault_append (key x) x d)"
  by (simp_all add: buckets_def)

lemma timestamps_loop:
  assumes "for_each (timestamps_step gr su ba pd) st pkgs = Inr st'"
  shows "\<exists>new. snd st' = snd st @ new \<and> length new = length pkgs
           \<and> fst st' = buckets (stamp_key pd) new (fst st)
           \<and> list_all (\<lambda>p. stamp pd (first_seen p) = Inr (stamp_key pd p)) new"
  using assms
proof (induction pkgs arbitrary: st)
  case Nil
  then show ?case by simp
next
  case (Cons pkg pkgs)
  from Cons.prems obtain st1 where
    step: "timestamps_step gr su ba pd st pkg = Inr st1"
    and rest: "for_each (timestamps_step gr su ba pd) st1 pkgs = Inr st'"
    by (cases "timestamps_step gr su ba pd st pkg") simp_all
  from step obtain pkg' t where
    t: "stamp pd (first_seen pkg') = Inr t"
    and st1: "st1 = (setdefault_append t pkg' (fst st), snd st @ [pkg'])"
    by (auto simp: timestamps_step_def seq_def split: sum.splits if_splits prod.splits)
  from Cons.IH [OF rest] obtain new where
    new: "snd st' = snd st1 @ new" "length new = length pkgs"
      "fst st' = buckets (stamp_key pd) new (fst st1)"
      "list_all (\<lambda>p. stamp pd (first_seen p) = Inr (stamp_key pd p)) new"
    by blast
  have key: "stamp_key pd pkg' = t"
    using t by (simp add: stamp_key_def)
  show ?case
  proof (intro exI conjI)
    show "snd st' = snd st @ (pkg' # new)" using new(1) st1 by simp
    show "length (pkg' # new) = length (pkg # pkgs)" using new(2) by simp
    show "fst st' = buckets (stamp_key pd) (pkg' # new) (fst st)"
      using new(3) st1 key by simp
    show "list_all (\<lambda>p. stamp pd (first_seen p) = Inr (stamp_key pd p)) (pkg' # new)"
      using new(4) t key by simp
  qed
qed

lemma map_of_setdefault_append:
  "map_of (setdefault_append k v d) t
     = (if t = k then Some (get_default d k [] @ [v]) else map_of d t)"
  by (simp add: setdefault_append_def AList.update_conv')

lemma get_default_setdefault_append:
  "get_default (setdefault_append k v d) t dflt
     = (if t = k then get_default d k [] @ [v] else get_default d t dflt)"
  by (simp add: get_default_def map_of_setdefault_append)

lemma get_default_buckets:
  "get_default (buckets key xs d) t [] = get_default d t [] @ filter (\<lambda>x. key x = t) xs"
  by (induction xs arbitrary: d) (auto simp: get_default_setdefault_append)

lemma keys_setdefault_append:
  "fst ` set (setdefault_append k v d) = insert k (fst ` set d)"
  by (simp add: setdefault_append_def AList.dom_update)

lemma keys_buckets: "fst ` set (buckets key xs d) = fst ` set d \<union> key ` set xs"
  by (induction xs arbitrary: d) (auto simp: keys_setdefault_append)

lemma distinct_buckets:
  "distinct (map fst d) \<Longrightarrow> distinct (map fst (buckets key xs d))"
  by (induction xs arbitrary: d) (simp_all add: setdefault_append_def AList.distinct_update)

lemma map_of_buckets_empty:
  "map_of (buckets key xs []) t
     = (if t \<in> key ` set xs then Some (filter (\<lambda>x. key x = t) xs) else None)"
proof (cases "t \<in> key ` set xs")
  case True
  then have "t \<in> fst ` set (buckets key xs [])" by (simp add: keys_buckets)
  then obtain v where v: "map_of (buckets key xs []) t = Some v"
    by (cases "map_of (buckets key xs []) t") (auto simp: map_of_eq_None_iff)
  have "get_default (buckets key xs []) t [] = filter (\<lambda>x. key x = t) xs"
    unfolding get_default_buckets by (simp add: get_default_def)
  moreover have "get_default (buckets key xs []) t [] = v"
    using v by (simp add: get_default_def)
  ultimately show ?thesis using v True by simp
next
  case False
  then have "t \<notin> fst ` set (buckets key xs [])" by (simp add: keys_buckets)
  then have "map_of (buckets key xs []) t = None" by (simp add: map_of_eq_None_iff)
  with False show ?thesis by simp
qed

text \<open>The keys of the dictionary stand in the order in which they first occur.\<close>

lemma first_occurrences_set:
  "set seen = set seen' \<Longrightarrow> first_occurrences seen xs = first_occurrences seen' xs"
proof (induction xs arbitrary: seen seen')
  case Nil
  then show ?case by simp
next
  case (Cons x xs)
  have "first_occurrences (x # seen) xs = first_occurrences (x # seen') xs"
    by (rule Cons.IH) (simp add: Cons.prems)
  moreover have "first_occurrences seen xs = first_occurrences seen' xs"
    by (rule Cons.IH) (rule Cons.prems)
  ultimately show ?case using Cons.prems by simp
qed


lemma keys_setdefault_append_list:
  "map fst (setdefault_append k v d)
     = (if k \<in> set (map fst d) then map fst d else map fst d @ [k])"
  unfolding setdefault_append_def by (rule AList.update_keys)

lemma keys_buckets_order:
  "map fst (buckets key xs d) = map fst d @ first_occurrences (map fst d) (map key xs)"
proof (induction xs arbitrary: d)
  case Nil
  then show ?case by simp
next
  case (Cons x xs)
  let ?d = "setdefault_append (key x) x d"
  have IH: "map fst (buckets key xs ?d) = map fst ?d @ first_occurrences (map fst ?d) (map key xs)"
    by (rule Cons.IH)
  show ?case
  proof (cases "key x \<in> set (map fst d)")
    case True
    then have "map fst ?d = map fst d"
      by (simp only: keys_setdefault_append_list if_True)
    with True IH show ?thesis by simp
  next
    case False
    then have k: "map fst ?d = map fst d @ [key x]"
      by (simp only: keys_setdefault_append_list if_False)
    have "first_occurrences (map fst d @ [key x]) (map key xs)
        = first_occurrences (key x # map fst d) (map key xs)"
      by (rule first_occurrences_set) simp
    with False k IH show ?thesis by simp
  qed
qed

lemma two_entries:
  assumes d: "distinct (map fst rt)" and k: "fst ` set rt = {T1, T2}" and ne: "T1 \<noteq> T2"
    and a: "map_of rt T1 = Some a" and b: "map_of rt T2 = Some b"
  shows "rt = [(T1, a), (T2, b)] \<or> rt = [(T2, b), (T1, a)]"
proof -
  have "card (set (map fst rt)) = length (map fst rt)"
    using d by (rule distinct_card)
  then have "length rt = card (fst ` set rt)" by simp
  also have "\<dots> = 2" using k ne by simp
  finally have "length rt = 2" .
  then obtain x y where rt: "rt = [x, y]"
    by (metis (no_types) One_nat_def Suc_1 length_0_conv length_Suc_conv)
  with k have "{fst x, fst y} = {T1, T2}" by simp
  then consider "fst x = T1" "fst y = T2" | "fst x = T2" "fst y = T1"
    using ne by (auto simp: doubleton_eq_iff)
  then show ?thesis
  proof cases
    case 1
    with a b rt ne show ?thesis by (cases x; cases y) auto
  next
    case 2
    with a b rt ne show ?thesis by (cases x; cases y) auto
  qed
qed

lemma nine_before_one:
  assumes "length a = 9"
  shows "sorted_by_len_reverse [(T1, a), (T2, [p])] = [(T1, a), (T2, [p])]"
    and "sorted_by_len_reverse [(T2, [p]), (T1, a)] = [(T1, a), (T2, [p])]"
  using assms by (simp_all add: sorted_by_len_reverse_def)

lemma filters_cover:
  assumes "length xs = length (filter P xs) + length (filter Q xs)"
    and "\<And>x. P x \<Longrightarrow> \<not> Q x"
  shows "list_all (\<lambda>x. P x \<or> Q x) xs"
  using assms(1)
proof (induction xs)
  case Nil
  then show ?case by simp
next
  case (Cons x xs)
  have le: "length (filter P xs) + length (filter Q xs) \<le> length xs"
  proof -
    have "length (filter P xs) + length (filter (\<lambda>x. \<not> P x) xs) = length xs"
      by (rule sum_length_filter_compl)
    moreover have "length (filter Q xs) \<le> length (filter (\<lambda>x. \<not> P x) xs)"
    proof -
      have "filter Q xs = filter Q (filter (\<lambda>x. \<not> P x) xs)"
        using assms(2) by (auto intro: filter_cong)
      then show ?thesis by (metis length_filter_le)
    qed
    ultimately show ?thesis by linarith
  qed
  show ?case
  proof (cases "P x \<or> Q x")
    case True
    with Cons assms(2) [of x] le show ?thesis by (auto split: if_splits)
  next
    case False
    with Cons.prems le show ?thesis by simp
  qed
qed

lemma scenario_buckets:
  assumes ten: "length deps = 10"
    and nine: "length (filter (\<lambda>p. key p = T1) deps) = 9"
    and one: "filter (\<lambda>p. key p = T2) deps = [p]"
  shows "sorted_by_len_reverse (buckets key deps [])
           = [(T1, filter (\<lambda>p. key p = T1) deps), (T2, [p])]"
proof -
  have ne: "T1 \<noteq> T2" using nine one by auto
  have "list_all (\<lambda>p. key p = T1 \<or> key p = T2) deps"
    by (rule filters_cover) (use ten nine one ne in auto)
  then have sub: "key ` set deps \<subseteq> {T1, T2}" by (auto simp: list_all_iff)
  have "filter (\<lambda>p. key p = T1) deps \<noteq> []" using nine by auto
  then have in1: "T1 \<in> key ` set deps" by (auto simp: filter_empty_conv)
  have in2: "T2 \<in> key ` set deps"
  proof -
    have "p \<in> set (filter (\<lambda>p. key p = T2) deps)" using one by simp
    then show ?thesis by auto
  qed
  have k: "fst ` set (buckets key deps []) = {T1, T2}"
    using sub in1 in2 by (auto simp: keys_buckets)
  have d: "distinct (map fst (buckets key deps []))"
    by (rule distinct_buckets) simp
  have a: "map_of (buckets key deps []) T1 = Some (filter (\<lambda>p. key p = T1) deps)"
    using in1 by (simp add: map_of_buckets_empty)
  have b: "map_of (buckets key deps []) T2 = Some [p]"
    using in2 one by (simp add: map_of_buckets_empty)
  from two_entries [OF d k ne a b] show ?thesis
    using nine_before_one [OF nine] by auto
qed

lemma select_two:
  assumes "deps \<noteq> []" and "a \<noteq> []" and "set a \<subseteq> set deps"
  shows "snd (select_sources cache [(l1, a), (l2, [p])] deps [])
           = l1 # (if p \<in> set (remove_found cache [l1] deps) then [l2] else [])"
proof -
  have "list_ex (\<lambda>pkg. pkg \<in> set deps) a"
    using assms(2,3) by (cases a) (auto simp: list_ex_iff)
  with assms(1) show ?thesis
    by (cases "remove_found cache [l1] deps = []") simp_all
qed

lemma fold_remove1_filter:
  "mset (filter F xs) = mset (filter F acc) \<Longrightarrow>
   fold (\<lambda>x nf. if F x then remove1 x nf else nf) xs acc = filter (\<lambda>x. \<not> F x) acc"
proof (induction xs arbitrary: acc)
  case Nil
  then have "filter F acc = []" by simp
  then have "\<forall>x\<in>set acc. \<not> F x" by (simp add: filter_empty_conv)
  then show ?case by simp
next
  case (Cons x xs)
  show ?case
  proof (cases "F x")
    case True
    with Cons.prems have "x \<in># mset (filter F acc)"
      by (metis filter.simps(2) mset.simps(2) union_single_eq_member)
    then have x: "x \<in> set acc" by simp
    have "mset (filter F (remove1 x acc)) = mset (filter F acc) - {#x#}"
      by (simp add: filter_remove1)
    also have "\<dots> = mset (filter F xs)"
      using Cons.prems True by (metis add_mset_remove_trivial filter.simps(2) mset.simps(2))
    finally have "fold (\<lambda>x nf. if F x then remove1 x nf else nf) xs (remove1 x acc)
        = filter (\<lambda>x. \<not> F x) (remove1 x acc)"
      using Cons.IH [of "remove1 x acc"] by simp
    moreover have "filter (\<lambda>x. \<not> F x) (remove1 x acc) = filter (\<lambda>x. \<not> F x) acc"
      using True by (simp add: filter_remove1 remove1_idem)
    ultimately show ?thesis using True by simp
  next
    case False
    with Cons show ?thesis by simp
  qed
qed

lemma remove_found_filter:
  "remove_found cache sources nf = filter (\<lambda>p. \<not> in_cache cache sources p) nf"
  unfolding remove_found_def by (rule fold_remove1_filter) simp

lemma candidates_of_loop:
  assumes "for_each (timestamps_step get_response snapshot_url (fmt (build_arch b)) parsedate)
             ([], []) (build_depends b) = Inr (rt, deps)"
  shows "get_sources_list_from_timestamp get_response snapshot_url base_mirror parsedate b
           = Inr (map (\<lambda>x. (snapshot_line base_mirror (fst x), snd x)) (sorted_by_len_reverse rt),
                  b\<lparr>build_depends := deps\<rparr>)"
  using assms
  by (simp add: get_sources_list_from_timestamp_def get_build_depends_timestamps_def)

text \<open>
  C4, amended: when the loop over the build dependencies ends normally with the
  dictionary \<open>rt\<close> and the resolved packages \<open>deps\<close>, the candidates are the entries of
  \<open>rt\<close> as apt lines, sorted by bucket size in descending order, candidates of equal
  size keeping the order they have in \<open>rt\<close>, which is the order in which the
  timestamps first occur among the dependencies. For ten dependencies, nine with the
  timestamp T1 and one, \<open>p\<close>, with T2, the candidates are the T1 source, then the T2
  source; the T1 source is selected first, and the T2 source is selected after it
  exactly when the cache, with the T1 source added, does not have \<open>p\<close>: the selected
  list has length 1 or 2.
\<close>

theorem candidates_sorted_then_selected_in_order:
  assumes loop: "for_each (timestamps_step get_response snapshot_url (fmt (build_arch b)) parsedate)
             ([], []) (build_depends b) = Inr (rt, deps)"
  shows "\<exists>cands.
      get_sources_list_from_timestamp get_response snapshot_url base_mirror parsedate b
        = Inr (cands, b\<lparr>build_depends := deps\<rparr>)
    \<and> sorted (map (\<lambda>c. - int (length (snd c))) cands)
    \<and> (\<forall>n. filter (\<lambda>c. length (snd c) = n) cands
            = map (\<lambda>x. (snapshot_line base_mirror (fst x), snd x))
                (filter (\<lambda>x. length (snd x) = n) rt))
    \<and> map fst rt = first_occurrences [] (map (stamp_key parsedate) deps)
    \<and> (length deps = 10
        \<and> length (filter (\<lambda>pkg. stamp parsedate (first_seen pkg) = Inr T1) deps) = 9
        \<and> filter (\<lambda>pkg. stamp parsedate (first_seen pkg) = Inr T2) deps = [p] \<longrightarrow>
          map fst cands = [snapshot_line base_mirror T1, snapshot_line base_mirror T2]
        \<and> snd (select_sources cache cands deps [])
            = snapshot_line base_mirror T1 #
                (if \<not> in_cache cache [snapshot_line base_mirror T1] p
                 then [snapshot_line base_mirror T2] else []))"
proof -
  let ?line = "\<lambda>x. (snapshot_line base_mirror (fst x), snd x :: package list)"
  let ?f = "\<lambda>x :: string \<times> package list. - int (length (snd x))"
  let ?cands = "map ?line (sorted_by_len_reverse rt)"
  have sorted: "sorted (map (\<lambda>c. - int (length (snd c))) ?cands)"
  proof -
    have "map (\<lambda>c. - int (length (snd c))) ?cands = map ?f (sort_key ?f rt)"
      by (simp add: sorted_by_len_reverse_def comp_def)
    then show ?thesis by (simp add: sorted_sort_key)
  qed
  have stable: "filter (\<lambda>c. length (snd c) = n) ?cands
      = map ?line (filter (\<lambda>x. length (snd x) = n) rt)" for n
  proof -
    have "filter (\<lambda>c. length (snd c) = n) ?cands
        = map ?line (filter (\<lambda>x. ?f x = - int n) (sort_key ?f rt))"
      by (simp add: sorted_by_len_reverse_def filter_map comp_def)
    also have "\<dots> = map ?line (filter (\<lambda>x. ?f x = - int n) rt)"
      by (simp only: sort_key_stable)
    finally show ?thesis by simp
  qed
  have scenario:
    "map fst ?cands = [snapshot_line base_mirror T1, snapshot_line base_mirror T2]
     \<and> snd (select_sources cache ?cands deps [])
         = snapshot_line base_mirror T1 #
             (if \<not> in_cache cache [snapshot_line base_mirror T1] p
              then [snapshot_line base_mirror T2] else [])"
    if ten: "length deps = 10"
      and nine: "length (filter (\<lambda>pkg. stamp parsedate (first_seen pkg) = Inr T1) deps) = 9"
      and one: "filter (\<lambda>pkg. stamp parsedate (first_seen pkg) = Inr T2) deps = [p]"
  proof -
    from timestamps_loop [OF loop] have
      rt: "rt = buckets (stamp_key parsedate) deps []"
      and keyed: "list_all (\<lambda>p. stamp parsedate (first_seen p) = Inr (stamp_key parsedate p)) deps"
      by auto
    have same: "filter (\<lambda>pkg. stamp parsedate (first_seen pkg) = Inr T) deps
        = filter (\<lambda>pkg. stamp_key parsedate pkg = T) deps" for T
      using keyed by (auto simp: list_all_iff intro: filter_cong)
    let ?nine = "filter (\<lambda>pkg. stamp_key parsedate pkg = T1) deps"
    have sorted_rt: "sorted_by_len_reverse rt = [(T1, ?nine), (T2, [p])]"
      unfolding rt using ten nine one by (intro scenario_buckets) (simp_all add: same)
    have "p \<in> set (filter (\<lambda>pkg. stamp parsedate (first_seen pkg) = Inr T2) deps)"
      using one by simp
    then have p: "p \<in> set deps" by simp
    have "?nine \<noteq> []" using nine by (auto simp: same)
    moreover have "deps \<noteq> []" using ten by auto
    ultimately have "snd (select_sources cache
          [(snapshot_line base_mirror T1, ?nine), (snapshot_line base_mirror T2, [p])] deps [])
        = snapshot_line base_mirror T1 #
            (if p \<in> set (remove_found cache [snapshot_line base_mirror T1] deps)
             then [snapshot_line base_mirror T2] else [])"
      by (intro select_two) auto
    with p show ?thesis
      by (simp add: sorted_rt remove_found_filter)
  qed
  have order: "map fst rt = first_occurrences [] (map (stamp_key parsedate) deps)"
    using timestamps_loop [OF loop] keys_buckets_order [of "stamp_key parsedate" deps "[]"]
    by auto
  show ?thesis
    using candidates_of_loop [OF loop, of base_mirror] sorted stable order scenario
    by (intro exI [of _ ?cands]) blast
qed

text \<open>
  C4, as stated, fails on the second half: with nine dependencies first seen at T1
  and one at T2, the T1 source is selected first, but once it is added the cache may
  hold all ten packages (the later snapshot still has the package first seen
  earlier); the loop then stops and the selected list has length 1.
\<close>

theorem ten_deps_one_source_counterexample:
  "seq (find_build_dependencies cache_whole_archive ten_session ''http://snapshot.debian.org''
          ''http://snapshot.debian.org/archive/debian'' dateutil_values ten_buildinfo)
     (\<lambda>r. Inr (fst r))
   = Inr [''deb http://snapshot.debian.org/archive/debian/20210504T120000Z unstable main'']"
  by code_simp

text \<open>When the tenth package is found in its own snapshot only, both sources are selected.\<close>

lemma ten_deps_two_sources:
  "seq (find_build_dependencies cache_first_seen_only ten_session ''http://snapshot.debian.org''
          ''http://snapshot.debian.org/archive/debian'' dateutil_values ten_buildinfo)
     (\<lambda>r. Inr (fst r))
   = Inr [''deb http://snapshot.debian.org/archive/debian/20210504T120000Z unstable main'',
          ''deb http://snapshot.debian.org/archive/debian/20210301T083000Z unstable main'']"
  by code_simp

lemma ten_loop:
  "for_each (timestamps_step ten_session ''http://snapshot.debian.org''
        (fmt (build_arch ten_buildinfo)) dateutil_values)
     ([], []) (build_depends ten_buildinfo)
   = Inr ([(''20210301T083000Z'', [resolved ''20210301T083000Z'' ''libc6'']),
           (''20210504T120000Z'', map (resolved ''20210504T120000Z'') (tl ten_names))],
          ten_resolved)"
  by code_simp

lemma ten_counts:
  "length ten_resolved = 10"
  "length (filter (\<lambda>pkg. stamp dateutil_values (first_seen pkg) = Inr ''20210504T120000Z'')
             ten_resolved) = 9"
  "filter (\<lambda>pkg. stamp dateutil_values (first_seen pkg) = Inr ''20210301T083000Z'') ten_resolved
     = [resolved ''20210301T083000Z'' ''libc6'']"
  by code_simp+

lemma libc6_missing:
  "\<not> in_cache cache_first_seen_only
        [''deb http://snapshot.debian.org/archive/debian/20210504T120000Z unstable main'']
        (resolved ''20210301T083000Z'' ''libc6'')"
  by code_simp

theorem candidates_sorted_then_selected_in_order_witness:
  "\<exists>cands.
     get_sources_list_from_timestamp ten_session ''http://snapshot.debian.org''
       ''http://snapshot.debian.org/archive/debian'' dateutil_values ten_buildinfo
       = Inr (cands, ten_buildinfo\<lparr>build_depends := ten_resolved\<rparr>)
     \<and> map fst cands
         = [''deb http://snapshot.debian.org/archive/debian/20210504T120000Z unstable main'',
            ''deb http://snapshot.debian.org/archive/debian/20210301T083000Z unstable main'']
     \<and> snd (select_sources cache_first_seen_only cands ten_resolved [])
         = [''deb http://snapshot.debian.org/archive/debian/20210504T120000Z unstable main'',
            ''deb http://snapshot.debian.org/archive/debian/20210301T083000Z unstable main'']"
proof -
  have lines:
    "snapshot_line ''http://snapshot.debian.org/archive/debian'' ''20210504T120000Z''
       = ''deb http://snapshot.debian.org/archive/debian/20210504T120000Z unstable main''"
    "snapshot_line ''http://snapshot.debian.org/archive/debian'' ''20210301T083000Z''
       = ''deb http://snapshot.debian.org/archive/debian/20210301T083000Z unstable main''"
    by (simp_all add: snapshot_line_def)
  from candidates_sorted_then_selected_in_order
    [OF ten_loop, of "''http://snapshot.debian.org/archive/debian''"
       "''20210504T120000Z''" "''20210301T083000Z''" "resolved ''20210301T083000Z'' ''libc6''"
       cache_first_seen_only]
  show ?thesis
    unfolding lines using ten_counts libc6_missing by auto
qed

end
